theory Spec2Isabelle
  imports Main "HOL-Library.Word"
begin

section \<open>Lite3-JS: a B-tree of keyed entries inside one byte buffer\<close>

text \<open>
  A shallow embedding of the JavaScript sources \<^verbatim>\<open>constants.js\<close>, \<^verbatim>\<open>buffer-utils.js\<close>,
  \<^verbatim>\<open>hash.js\<close>, \<^verbatim>\<open>node.js\<close> and \<^verbatim>\<open>lite3.js\<close>.

  \<^item> A \<^verbatim>\<open>Uint8Array\<close> is an \<open>8 word list\<close>. A store \<^verbatim>\<open>buf[i] = v\<close> is \<open>buf[i := v]\<close>:
    both do nothing when \<open>i\<close> is out of range. A load \<^verbatim>\<open>buf[i]\<close> out of range is
    \<^verbatim>\<open>undefined\<close> in JavaScript, which the bitwise operators read as 0.
  \<^item> A \<^verbatim>\<open>DataView\<close> access of four or eight bytes throws a \<^verbatim>\<open>RangeError\<close> when it does
    not fit in the array; the model returns the error.
  \<^item> JavaScript numbers that hold offsets, sizes and hashes are \<open>nat\<close>; the 32-bit
    wrap-around of \<^verbatim>\<open>>>> 0\<close>, of the masks and of the shifts is written out with
    \<open>mod\<close> and \<open>div\<close>.
  \<^item> A JavaScript string is the list of its UTF-16 code units, \<open>16 word list\<close>.
  \<^item> The object \<^verbatim>\<open>this\<close> of class \<^verbatim>\<open>Lite3\<close> is the record \<open>lite3\<close>; a method is a
    function from the state to a result and the state it leaves behind, also when it
    throws.
\<close>

subsection \<open>Errors and the state-and-exception monad\<close>

datatype error =
    EINVAL      \<comment> \<open>\<^verbatim>\<open>ErrorCode.INVALID_ARGUMENT\<close>\<close>
  | ENOBUFS     \<comment> \<open>\<^verbatim>\<open>ErrorCode.NO_BUFFER_SPACE\<close>\<close>
  | ENOENT      \<comment> \<open>\<^verbatim>\<open>ErrorCode.KEY_NOT_FOUND\<close>\<close>
  | EBADMSG     \<comment> \<open>\<^verbatim>\<open>ErrorCode.BAD_MESSAGE\<close>\<close>
  | EFAULT      \<comment> \<open>\<^verbatim>\<open>ErrorCode.OUT_OF_BOUNDS\<close>\<close>
  | RangeError  \<comment> \<open>thrown by \<^verbatim>\<open>DataView\<close> on an access outside the array\<close>

type_synonym bytes = "8 word list"
type_synonym js_string = "16 word list"

record lite3 =
  buffer :: bytes
  buflen :: nat
  initialized :: bool

type_synonym 'a m = "lite3 \<Rightarrow> (error + 'a) \<times> lite3"

definition ret :: "'a \<Rightarrow> 'a m" where
  "ret x s = (Inr x, s)"

definition throw :: "error \<Rightarrow> 'a m" where
  "throw e s = (Inl e, s)"

fun bind_res :: "(error + 'a) \<times> lite3 \<Rightarrow> ('a \<Rightarrow> 'b m) \<Rightarrow> (error + 'b) \<times> lite3" where
  "bind_res (Inl e, s) f = (Inl e, s)"
| "bind_res (Inr x, s) f = f x s"

definition bind :: "'a m \<Rightarrow> ('a \<Rightarrow> 'b m) \<Rightarrow> 'b m" where
  "bind m f s = bind_res (m s) f"

text \<open>A read of \<^verbatim>\<open>this._buffer\<close> that may throw, and a write that may throw.\<close>

definition readB :: "(bytes \<Rightarrow> error + 'a) \<Rightarrow> 'a m" where
  "readB f s = (f (buffer s), s)"

definition writeB :: "(bytes \<Rightarrow> error + bytes) \<Rightarrow> unit m" where
  "writeB f s = (case f (buffer s) of Inl e \<Rightarrow> (Inl e, s) | Inr b \<Rightarrow> (Inr (), s\<lparr>buffer := b\<rparr>))"

definition gets :: "(lite3 \<Rightarrow> 'a) \<Rightarrow> 'a m" where
  "gets f s = (Inr (f s), s)"

definition modify :: "(lite3 \<Rightarrow> lite3) \<Rightarrow> unit m" where
  "modify f s = (Inr (), f s)"

text \<open>Results of functions that only read: \<open>mapR\<close> applies a function to a result,
  \<open>bindR\<close> continues after a read that did not throw.\<close>

definition mapR :: "('a \<Rightarrow> 'b) \<Rightarrow> error + 'a \<Rightarrow> error + 'b" where
  "mapR f r = (case r of Inl e \<Rightarrow> Inl e | Inr x \<Rightarrow> Inr (f x))"

definition bindR :: "error + 'a \<Rightarrow> ('a \<Rightarrow> error + 'b) \<Rightarrow> error + 'b" where
  "bindR r f = (case r of Inl e \<Rightarrow> Inl e | Inr x \<Rightarrow> f x)"

text \<open>\<^verbatim>\<open>for (let j = hi; j > lo; j--) body(j)\<close> and \<^verbatim>\<open>for (let i = lo; i < hi; i++) body(i)\<close>.\<close>

fun forDown :: "nat \<Rightarrow> nat \<Rightarrow> (nat \<Rightarrow> unit m) \<Rightarrow> unit m" where
  "forDown hi lo body = (if lo < hi then bind (body hi) (\<lambda>_. forDown (hi - 1) lo body) else ret ())"

function forUp :: "nat \<Rightarrow> nat \<Rightarrow> (nat \<Rightarrow> unit m) \<Rightarrow> unit m" where
  "forUp lo hi body = (if lo < hi then bind (body lo) (\<lambda>_. forUp (lo + 1) hi body) else ret ())"
  by pat_completeness auto
termination
  by (relation "measure (\<lambda>(lo, hi, body). hi - lo)") auto

declare forDown.simps [simp del] forUp.simps [simp del]

subsection \<open>constants.js\<close>

definition T_NULL :: nat where "T_NULL = 0"
definition T_BOOL :: nat where "T_BOOL = 1"
definition T_I64 :: nat where "T_I64 = 2"
definition T_F64 :: nat where "T_F64 = 3"
definition T_BYTES :: nat where "T_BYTES = 4"
definition T_STRING :: nat where "T_STRING = 5"
definition T_OBJECT :: nat where "T_OBJECT = 6"
definition T_ARRAY :: nat where "T_ARRAY = 7"
definition T_INVALID :: nat where "T_INVALID = 8"

text \<open>\<^verbatim>\<open>TypeSizes[type] || 0\<close>: the table has entries for the tags 0 to 8 only.\<close>

definition TypeSizes :: "nat \<Rightarrow> nat" where
  "TypeSizes t =
     (if t = T_NULL then 0 else if t = T_BOOL then 1 else if t = T_I64 then 8
      else if t = T_F64 then 8 else if t = T_BYTES then 4 else if t = T_STRING then 4
      else if t = T_OBJECT then 95 else if t = T_ARRAY then 95 else 0)"

definition NODE_SIZE :: nat where "NODE_SIZE = 96"
definition NODE_ALIGNMENT :: nat where "NODE_ALIGNMENT = 4"
definition KEY_COUNT_MAX :: nat where "KEY_COUNT_MAX = 7"
definition KEY_COUNT_MIN :: nat where "KEY_COUNT_MIN = 3"
definition TREE_HEIGHT_MAX :: nat where "TREE_HEIGHT_MAX = 9"
definition SIZE_KC_OFFSET :: nat where "SIZE_KC_OFFSET = 32"
definition VAL_SIZE :: nat where "VAL_SIZE = 1"
definition DJB2_HASH_SEED :: nat where "DJB2_HASH_SEED = 5381"

lemmas const_defs =
  T_NULL_def T_BOOL_def T_I64_def T_F64_def T_BYTES_def T_STRING_def T_OBJECT_def
  T_ARRAY_def T_INVALID_def NODE_SIZE_def NODE_ALIGNMENT_def KEY_COUNT_MAX_def
  KEY_COUNT_MIN_def TREE_HEIGHT_MAX_def SIZE_KC_OFFSET_def VAL_SIZE_def DJB2_HASH_SEED_def

subsection \<open>buffer-utils.js\<close>

text \<open>\<^verbatim>\<open>buf[i]\<close> where the result is used as a number by \<^verbatim>\<open>&\<close>, \<^verbatim>\<open>|\<close> or \<^verbatim>\<open><<\<close>, or is
  stored into another \<^verbatim>\<open>Uint8Array\<close>: \<^verbatim>\<open>undefined\<close> counts as 0.\<close>

definition byteAt :: "bytes \<Rightarrow> nat \<Rightarrow> nat" where
  "byteAt b i = (if i < length b then unat (b ! i) else 0)"

text \<open>\<^verbatim>\<open>buf[i]\<close> where the result is compared with \<^verbatim>\<open>===\<close> or switched on: \<open>None\<close> is
  \<^verbatim>\<open>undefined\<close>.\<close>

definition byteOpt :: "bytes \<Rightarrow> nat \<Rightarrow> nat option" where
  "byteOpt b i = (if i < length b then Some (unat (b ! i)) else None)"

text \<open>Little-endian composition of \<open>n\<close> bytes from \<open>off\<close>, and the \<open>i\<close>-th byte of a number.\<close>

fun leValue :: "bytes \<Rightarrow> nat \<Rightarrow> nat \<Rightarrow> nat" where
  "leValue b off 0 = 0"
| "leValue b off (Suc n) = byteAt b off + 256 * leValue b (off + 1) n"

definition byteOf :: "nat \<Rightarrow> nat \<Rightarrow> 8 word" where
  "byteOf v i = of_nat ((v div 256 ^ i) mod 256)"

definition readUint32 :: "bytes \<Rightarrow> nat \<Rightarrow> error + nat" where
  "readUint32 b off =
     (if off + 4 \<le> length b
      then Inr (byteAt b off + 256 * byteAt b (off + 1) + 65536 * byteAt b (off + 2)
                + 16777216 * byteAt b (off + 3))
      else Inl RangeError)"

text \<open>\<^verbatim>\<open>view.setUint32(offset, value >>> 0, true)\<close>\<close>

definition writeUint32 :: "bytes \<Rightarrow> nat \<Rightarrow> nat \<Rightarrow> error + bytes" where
  "writeUint32 b off v =
     (if off + 4 \<le> length b
      then Inr (b[off := byteOf (v mod 2 ^ 32) 0, off + 1 := byteOf (v mod 2 ^ 32) 1,
                  off + 2 := byteOf (v mod 2 ^ 32) 2, off + 3 := byteOf (v mod 2 ^ 32) 3])
      else Inl RangeError)"

text \<open>\<^verbatim>\<open>getBigInt64\<close> and \<^verbatim>\<open>setBigInt64(offset, BigInt(value), true)\<close>: two's complement
  on 64 bits.\<close>

definition readInt64 :: "bytes \<Rightarrow> nat \<Rightarrow> error + int" where
  "readInt64 b off =
     (if off + 8 \<le> length b
      then (let u = leValue b off 8 in
            Inr (if u < 2 ^ 63 then int u else int u - 2 ^ 64))
      else Inl RangeError)"

fun writeLE :: "bytes \<Rightarrow> nat \<Rightarrow> nat \<Rightarrow> nat \<Rightarrow> bytes" where
  "writeLE b off v 0 = b"
| "writeLE b off v (Suc n) = writeLE (b[off := of_nat (v mod 256)]) (off + 1) (v div 256) n"

definition writeInt64 :: "bytes \<Rightarrow> nat \<Rightarrow> int \<Rightarrow> error + bytes" where
  "writeInt64 b off v =
     (if off + 8 \<le> length b then Inr (writeLE b off (nat (v mod 2 ^ 64)) 8)
      else Inl RangeError)"

text \<open>A double is given by its IEEE-754 bit pattern; \<^verbatim>\<open>getFloat64\<close> and \<^verbatim>\<open>setFloat64\<close>
  move the eight bytes of the pattern.\<close>

definition readFloat64 :: "bytes \<Rightarrow> nat \<Rightarrow> error + 64 word" where
  "readFloat64 b off =
     (if off + 8 \<le> length b then Inr (of_nat (leValue b off 8)) else Inl RangeError)"

definition writeFloat64 :: "bytes \<Rightarrow> nat \<Rightarrow> 64 word \<Rightarrow> error + bytes" where
  "writeFloat64 b off v =
     (if off + 8 \<le> length b then Inr (writeLE b off (unat v) 8) else Inl RangeError)"

text \<open>\<^verbatim>\<open>value |= buffer[offset + i] << (i * 8)\<close> for \<open>i < byteCount\<close>, then \<^verbatim>\<open>>>> 0\<close>;
  \<open>byteCount\<close> is at most 4.\<close>

definition readVarUint :: "bytes \<Rightarrow> nat \<Rightarrow> nat \<Rightarrow> nat" where
  "readVarUint b off byteCount = leValue b off byteCount"

text \<open>\<^verbatim>\<open>buffer[offset + i] = (value >> (i * 8)) & 0xFF\<close> for \<open>i < byteCount\<close>.\<close>

definition writeVarUint :: "bytes \<Rightarrow> nat \<Rightarrow> nat \<Rightarrow> nat \<Rightarrow> bytes" where
  "writeVarUint b off v byteCount = writeLE b off v byteCount"

text \<open>\<^verbatim>\<open>(offset + mask) & ~mask\<close> with \<open>mask = alignment - 1\<close>, for a power of two and
  an offset below \<open>2^31\<close>.\<close>

definition alignOffset :: "nat \<Rightarrow> nat \<Rightarrow> nat" where
  "alignOffset off alignment = ((off + (alignment - 1)) div alignment) * alignment"

text \<open>\<^verbatim>\<open>dest[destOffset + i] = src[srcOffset + i]\<close> for \<open>i\<close> from 0 to \<open>length - 1\<close>, in
  this order; \<open>copyWithin\<close> is the call where source and destination are the same
  array.\<close>

fun copyBytes :: "bytes \<Rightarrow> nat \<Rightarrow> bytes \<Rightarrow> nat \<Rightarrow> nat \<Rightarrow> bytes" where
  "copyBytes dest destOffset src srcOffset 0 = dest"
| "copyBytes dest destOffset src srcOffset (Suc n) =
     copyBytes (dest[destOffset := of_nat (byteAt src srcOffset)])
       (destOffset + 1) src (srcOffset + 1) n"

fun copyWithin :: "bytes \<Rightarrow> nat \<Rightarrow> nat \<Rightarrow> nat \<Rightarrow> bytes" where
  "copyWithin b destOffset srcOffset 0 = b"
| "copyWithin b destOffset srcOffset (Suc n) =
     copyWithin (b[destOffset := of_nat (byteAt b srcOffset)])
       (destOffset + 1) (srcOffset + 1) n"

text \<open>\<^verbatim>\<open>new TextEncoder().encode(str)\<close>: UTF-8 of the code points of a UTF-16 string; a
  surrogate that has no partner is encoded as U+FFFD.\<close>

definition utf8_of_code_point :: "nat \<Rightarrow> bytes" where
  "utf8_of_code_point cp =
     (if cp < 128 then [of_nat cp]
      else if cp < 2048 then [of_nat (192 + cp div 64), of_nat (128 + cp mod 64)]
      else if cp < 65536 then
        [of_nat (224 + cp div 4096), of_nat (128 + (cp div 64) mod 64), of_nat (128 + cp mod 64)]
      else
        [of_nat (240 + cp div 262144), of_nat (128 + (cp div 4096) mod 64),
         of_nat (128 + (cp div 64) mod 64), of_nat (128 + cp mod 64)])"

fun encodeString :: "js_string \<Rightarrow> bytes" where
  "encodeString [] = []"
| "encodeString [c] =
     (if 55296 \<le> unat c \<and> unat c < 57344 then utf8_of_code_point 65533
      else utf8_of_code_point (unat c))"
| "encodeString (c # d # cs) =
     (if 55296 \<le> unat c \<and> unat c < 56320 \<and> 56320 \<le> unat d \<and> unat d < 57344
      then utf8_of_code_point (65536 + (unat c - 55296) * 1024 + (unat d - 56320))
             @ encodeString cs
      else if 55296 \<le> unat c \<and> unat c < 57344
      then utf8_of_code_point 65533 @ encodeString (d # cs)
      else utf8_of_code_point (unat c) @ encodeString (d # cs))"

text \<open>
  \<^verbatim>\<open>new TextDecoder().decode(bytes.subarray(offset, offset + length))\<close>. The decoder is
  the UTF-8 decoder of the Encoding standard, which does not fail: \<open>needed\<close> is the
  number of continuation bytes still to come, \<open>cp\<close> the code point collected so far,
  \<open>lower\<close> and \<open>upper\<close> the bounds of the next continuation byte. A byte that cannot
  start a sequence gives U+FFFD; a byte that cannot continue one gives U+FFFD for the
  sequence and is then read again as a first byte; so does the end of the input inside
  a sequence.
\<close>

function utf8_decode :: "nat \<Rightarrow> nat \<Rightarrow> nat \<Rightarrow> nat \<Rightarrow> bytes \<Rightarrow> nat list" where
  "utf8_decode needed cp lower upper [] = (if needed = 0 then [] else [65533])"
| "utf8_decode needed cp lower upper (w # ws) =
     (if needed = 0 then
        (if unat w < 128 then unat w # utf8_decode 0 0 128 191 ws
         else if 194 \<le> unat w \<and> unat w \<le> 223 then utf8_decode 1 (unat w mod 32) 128 191 ws
         else if 224 \<le> unat w \<and> unat w \<le> 239 then
           utf8_decode 2 (unat w mod 16) (if unat w = 224 then 160 else 128)
             (if unat w = 237 then 159 else 191) ws
         else if 240 \<le> unat w \<and> unat w \<le> 244 then
           utf8_decode 3 (unat w mod 8) (if unat w = 240 then 144 else 128)
             (if unat w = 244 then 143 else 191) ws
         else 65533 # utf8_decode 0 0 128 191 ws)
      else if unat w < lower \<or> upper < unat w then 65533 # utf8_decode 0 0 128 191 (w # ws)
      else if needed = 1 then (cp * 64 + unat w mod 64) # utf8_decode 0 0 128 191 ws
      else utf8_decode (needed - 1) (cp * 64 + unat w mod 64) 128 191 ws)"
  by pat_completeness auto
termination
  by (relation "measure (\<lambda>(needed, cp, lower, upper, ws).
                  2 * length ws + (if needed = 0 then 0 else 1))") auto

declare utf8_decode.simps [simp del]

text \<open>A code point as UTF-16 code units.\<close>

definition utf16_of_code_point :: "nat \<Rightarrow> js_string" where
  "utf16_of_code_point cp =
     (if cp < 65536 then [of_nat cp]
      else [of_nat (55296 + (cp - 65536) div 1024), of_nat (56320 + (cp - 65536) mod 1024)])"

text \<open>A byte order mark at the start of the input is not part of the string. The
  argument \<open>len\<close> is \<^verbatim>\<open>length\<close> when that is positive and 0 otherwise: the callers pass
  \<open>offset \<ge> 1\<close> and \<open>length \<ge> -1\<close>, where \<^verbatim>\<open>subarray\<close> is empty for \<open>length \<le> 0\<close>.\<close>

definition decodeString :: "bytes \<Rightarrow> nat \<Rightarrow> nat \<Rightarrow> js_string" where
  "decodeString b off len =
     (let cps = utf8_decode 0 0 128 191 (take len (drop off b))
      in concat (map utf16_of_code_point
           (case cps of [] \<Rightarrow> [] | c # cs \<Rightarrow> if c = 65279 then cs else cps)))"

subsection \<open>hash.js\<close>

text \<open>\<^verbatim>\<open>hash << 5\<close> converts to a signed 32-bit integer; the sum is exact; \<^verbatim>\<open>>>> 0\<close>
  reduces it modulo \<open>2^32\<close>.\<close>

definition toInt32 :: "int \<Rightarrow> int" where
  "toInt32 x = (x + 2 ^ 31) mod 2 ^ 32 - 2 ^ 31"

definition toUint32 :: "int \<Rightarrow> nat" where
  "toUint32 x = nat (x mod 2 ^ 32)"

definition djb2Step :: "nat \<Rightarrow> 16 word \<Rightarrow> nat" where
  "djb2Step hash c =
     (let charCode = unat c mod 256
      in toUint32 (toInt32 (int hash * 32) + int hash + int charCode))"

definition djb2Hash :: "js_string \<Rightarrow> nat" where
  "djb2Hash key = foldl djb2Step DJB2_HASH_SEED key"

record key_data =
  kd_hash :: nat
  kd_size :: nat

definition getKeyData :: "js_string \<Rightarrow> key_data" where
  "getKeyData key = \<lparr>kd_hash = djb2Hash key, kd_size = length (encodeString key) + 1\<rparr>"

definition getKeyTagSize :: "nat \<Rightarrow> nat" where
  "getKeyTagSize keySize =
     (if keySize > 4194303 then 4 else if keySize > 16383 then 3
      else if keySize > 63 then 2 else 1)"


subsection \<open>node.js\<close>

text \<open>The functions of \<^verbatim>\<open>node.js\<close> take the array as their first argument. A getter is a
  read; a setter reads the word, changes its field and writes the word back.\<close>

definition getNodeType :: "bytes \<Rightarrow> nat \<Rightarrow> error + nat" where
  "getNodeType b off = mapR (\<lambda>genType. genType mod 256) (readUint32 b off)"

definition getNodeGeneration :: "bytes \<Rightarrow> nat \<Rightarrow> error + nat" where
  "getNodeGeneration b off = mapR (\<lambda>genType. genType div 256) (readUint32 b off)"

text \<open>\<^verbatim>\<open>(gen << 8) | type\<close>: the low eight bits of \<^verbatim>\<open>gen << 8\<close> are zero.\<close>

definition setNodeGeneration :: "bytes \<Rightarrow> nat \<Rightarrow> nat \<Rightarrow> error + bytes" where
  "setNodeGeneration b off gen =
     bindR (readUint32 b off) (\<lambda>genType. writeUint32 b off (gen * 256 + genType mod 256))"

text \<open>\<^verbatim>\<open>(gen + 1) & 0xFFFFFF\<close>\<close>

definition incrementGeneration :: "bytes \<Rightarrow> nat \<Rightarrow> error + bytes" where
  "incrementGeneration b off =
     bindR (getNodeGeneration b off) (\<lambda>gen. setNodeGeneration b off ((gen + 1) mod 2 ^ 24))"

definition getNodeKeyCount :: "bytes \<Rightarrow> nat \<Rightarrow> error + nat" where
  "getNodeKeyCount b off = mapR (\<lambda>sizeKc. sizeKc mod 8) (readUint32 b (off + SIZE_KC_OFFSET))"

text \<open>\<^verbatim>\<open>(sizeKc & ~KEY_COUNT_MASK) | (count & KEY_COUNT_MASK)\<close>\<close>

definition setNodeKeyCount :: "bytes \<Rightarrow> nat \<Rightarrow> nat \<Rightarrow> error + bytes" where
  "setNodeKeyCount b off count =
     bindR (readUint32 b (off + SIZE_KC_OFFSET))
       (\<lambda>sizeKc. writeUint32 b (off + SIZE_KC_OFFSET) ((sizeKc div 8) * 8 + count mod 8))"

text \<open>\<^verbatim>\<open>sizeKc >>> SIZE_SHIFT\<close> with \<open>SIZE_SHIFT = 6\<close>\<close>

definition getNodeSize :: "bytes \<Rightarrow> nat \<Rightarrow> error + nat" where
  "getNodeSize b off = mapR (\<lambda>sizeKc. sizeKc div 64) (readUint32 b (off + SIZE_KC_OFFSET))"

text \<open>\<^verbatim>\<open>(sizeKc & KEY_COUNT_MASK) | (size << SIZE_SHIFT)\<close>\<close>

definition setNodeSize :: "bytes \<Rightarrow> nat \<Rightarrow> nat \<Rightarrow> error + bytes" where
  "setNodeSize b off sz =
     bindR (readUint32 b (off + SIZE_KC_OFFSET))
       (\<lambda>sizeKc. writeUint32 b (off + SIZE_KC_OFFSET) (sz * 64 + sizeKc mod 8))"

definition incrementNodeSize :: "bytes \<Rightarrow> nat \<Rightarrow> error + bytes" where
  "incrementNodeSize b off = bindR (getNodeSize b off) (\<lambda>sz. setNodeSize b off (sz + 1))"

definition getNodeHash :: "bytes \<Rightarrow> nat \<Rightarrow> nat \<Rightarrow> error + nat" where
  "getNodeHash b off index = readUint32 b (off + 4 + index * 4)"

definition setNodeHash :: "bytes \<Rightarrow> nat \<Rightarrow> nat \<Rightarrow> nat \<Rightarrow> error + bytes" where
  "setNodeHash b off index hash = writeUint32 b (off + 4 + index * 4) hash"

definition getNodeKvOffset :: "bytes \<Rightarrow> nat \<Rightarrow> nat \<Rightarrow> error + nat" where
  "getNodeKvOffset b off index = readUint32 b (off + 36 + index * 4)"

definition setNodeKvOffset :: "bytes \<Rightarrow> nat \<Rightarrow> nat \<Rightarrow> nat \<Rightarrow> error + bytes" where
  "setNodeKvOffset b off index kvOffset = writeUint32 b (off + 36 + index * 4) kvOffset"

definition getNodeChildOffset :: "bytes \<Rightarrow> nat \<Rightarrow> nat \<Rightarrow> error + nat" where
  "getNodeChildOffset b off index = readUint32 b (off + 64 + index * 4)"

definition setNodeChildOffset :: "bytes \<Rightarrow> nat \<Rightarrow> nat \<Rightarrow> nat \<Rightarrow> error + bytes" where
  "setNodeChildOffset b off index childOffset = writeUint32 b (off + 64 + index * 4) childOffset"

definition hasChildren :: "bytes \<Rightarrow> nat \<Rightarrow> error + bool" where
  "hasChildren b off = mapR (\<lambda>c. c \<noteq> 0) (getNodeChildOffset b off 0)"

text \<open>The procedures of \<^verbatim>\<open>node.js\<close> that write several words act on \<^verbatim>\<open>this._buffer\<close>,
  the array every caller passes.\<close>

definition initNode :: "nat \<Rightarrow> nat \<Rightarrow> unit m" where
  "initNode off type =
     bind (writeB (\<lambda>b. writeUint32 b off (type mod 256))) (\<lambda>_.
     bind (writeB (\<lambda>b. writeUint32 b (off + SIZE_KC_OFFSET) 0)) (\<lambda>_.
     forUp 0 8 (\<lambda>i. writeB (\<lambda>b. setNodeChildOffset b off i 0))))"

definition shiftNodeEntriesRight :: "nat \<Rightarrow> nat \<Rightarrow> nat \<Rightarrow> unit m" where
  "shiftNodeEntriesRight off fromIndex keyCount =
     forDown keyCount fromIndex (\<lambda>j.
       bind (readB (\<lambda>b. getNodeHash b off (j - 1))) (\<lambda>h.
       bind (writeB (\<lambda>b. setNodeHash b off j h)) (\<lambda>_.
       bind (readB (\<lambda>b. getNodeKvOffset b off (j - 1))) (\<lambda>kv.
       bind (writeB (\<lambda>b. setNodeKvOffset b off j kv)) (\<lambda>_.
       bind (readB (\<lambda>b. getNodeChildOffset b off j)) (\<lambda>c.
       writeB (\<lambda>b. setNodeChildOffset b off (j + 1) c)))))))"


subsection \<open>lite3.js: construction, space, keys\<close>

text \<open>\<^verbatim>\<open>new Lite3(initialSize)\<close>\<close>

definition Lite3 :: "nat \<Rightarrow> lite3" where
  "Lite3 initialSize = \<lparr>buffer = replicate initialSize 0, buflen = 0, initialized = False\<rparr>"

text \<open>\<^verbatim>\<open>Lite3.fromBuffer(buffer, length)\<close>\<close>

definition fromBuffer :: "bytes \<Rightarrow> nat \<Rightarrow> lite3" where
  "fromBuffer b len = \<lparr>buffer = b, buflen = len, initialized = True\<rparr>"

text \<open>\<^verbatim>\<open>_ensureSpace\<close>: the new array holds the old bytes followed by zeros.\<close>

definition ensureSpace :: "nat \<Rightarrow> unit m" where
  "ensureSpace needed =
     modify (\<lambda>s. let required = buflen s + needed in
       if required > length (buffer s)
       then s\<lparr>buffer := buffer s
                 @ replicate (max required (length (buffer s) * 2) - length (buffer s)) 0\<rparr>
       else s)"

definition initObject :: "unit m" where
  "initObject =
     bind (ensureSpace NODE_SIZE) (\<lambda>_.
     bind (initNode 0 T_OBJECT) (\<lambda>_.
     modify (\<lambda>s. s\<lparr>buflen := NODE_SIZE, initialized := True\<rparr>)))"

definition initArray :: "unit m" where
  "initArray =
     bind (ensureSpace NODE_SIZE) (\<lambda>_.
     bind (initNode 0 T_ARRAY) (\<lambda>_.
     modify (\<lambda>s. s\<lparr>buflen := NODE_SIZE, initialized := True\<rparr>)))"

definition checkInitialized :: "unit m" where
  "checkInitialized s = (if initialized s then (Inr (), s) else (Inl EINVAL, s))"

text \<open>\<^verbatim>\<open>_writeKey\<close>; \<^verbatim>\<open>((keySize << 2) | (tagSize - 1)) >>> 0\<close> with \<open>1 \<le> tagSize \<le> 4\<close>, as
  \<open>getKeyTagSize\<close> returns it.\<close>

definition writeKey :: "nat \<Rightarrow> nat \<Rightarrow> nat \<Rightarrow> bytes \<Rightarrow> bytes \<Rightarrow> bytes" where
  "writeKey offset tagSize keySize keyEncoded b =
     (let tagValue = (keySize * 4 + (tagSize - 1)) mod 2 ^ 32;
          b1 = writeVarUint b offset tagValue tagSize;
          b2 = copyBytes b1 (offset + tagSize) keyEncoded 0 (length keyEncoded)
      in b2[offset + tagSize + length keyEncoded := 0])"

text \<open>\<^verbatim>\<open>_skipKey\<close>\<close>

definition skipKey :: "bytes \<Rightarrow> nat \<Rightarrow> nat" where
  "skipKey b kvOffset =
     (let tagByte = byteAt b kvOffset;
          tagSize = tagByte mod 4 + 1;
          keySize = readVarUint b kvOffset tagSize div 4
      in kvOffset + tagSize + keySize)"

text \<open>\<^verbatim>\<open>_readKey\<close>\<close>

definition readKey :: "bytes \<Rightarrow> nat \<Rightarrow> js_string" where
  "readKey b kvOffset =
     (let tagByte = byteAt b kvOffset;
          tagSize = tagByte mod 4 + 1;
          keySize = readVarUint b kvOffset tagSize div 4
      in decodeString b (kvOffset + tagSize) (keySize - 1))"

text \<open>\<^verbatim>\<open>_getValueSize\<close>\<close>

definition getValueSize :: "bytes \<Rightarrow> nat \<Rightarrow> error + nat" where
  "getValueSize b valOffset =
     (let type = byteOpt b valOffset;
          baseSize = (case type of None \<Rightarrow> 0 | Some t \<Rightarrow> TypeSizes t)
      in if type = Some T_STRING \<or> type = Some T_BYTES
         then mapR (\<lambda>dataLen. VAL_SIZE + 4 + dataLen) (readUint32 b (valOffset + VAL_SIZE))
         else if type = Some T_OBJECT \<or> type = Some T_ARRAY then Inr NODE_SIZE
         else Inr (VAL_SIZE + baseSize))"

subsection \<open>lite3.js: the B-tree engine\<close>

record find_result =
  nodeOffset :: nat
  index :: nat
  isNew :: bool

text \<open>\<^verbatim>\<open>while (i < keyCount && getNodeHash(buffer, nodeOffset, i) < hash) i++\<close>\<close>

function scanKeys :: "bytes \<Rightarrow> nat \<Rightarrow> nat \<Rightarrow> nat \<Rightarrow> nat \<Rightarrow> error + nat" where
  "scanKeys b node hash keyCount i =
     (if i < keyCount
      then bindR (getNodeHash b node i)
             (\<lambda>h. if h < hash then scanKeys b node hash keyCount (i + 1) else Inr i)
      else Inr i)"
  by pat_completeness auto
termination
  by (relation "measure (\<lambda>(b, node, hash, keyCount, i). keyCount - i)") auto

declare scanKeys.simps [simp del]

text \<open>\<^verbatim>\<open>i < keyCount && getNodeHash(buffer, nodeOffset, i) === hash\<close>\<close>

definition keyAt :: "bytes \<Rightarrow> nat \<Rightarrow> nat \<Rightarrow> nat \<Rightarrow> nat \<Rightarrow> error + bool" where
  "keyAt b node hash keyCount i =
     (if i < keyCount then mapR (\<lambda>h. h = hash) (getNodeHash b node i) else Inr False)"

text \<open>\<^verbatim>\<open>_splitNode\<close> with \<^verbatim>\<open>parent === null\<close>, after the used length has been aligned.\<close>

definition splitRoot :: "nat \<Rightarrow> nat \<Rightarrow> unit m" where
  "splitRoot rootOffset buflenAligned =
     (let newNodeOffset = buflenAligned; siblingOffset = buflenAligned + NODE_SIZE in
      bind (readB (\<lambda>b. getNodeSize b rootOffset)) (\<lambda>currentSize.
      bind (modify (\<lambda>s. s\<lparr>buffer := copyWithin (buffer s) newNodeOffset rootOffset NODE_SIZE\<rparr>)) (\<lambda>_.
      bind (readB (\<lambda>b. getNodeType b newNodeOffset)) (\<lambda>type.
      bind (initNode rootOffset type) (\<lambda>_.
      bind (writeB (\<lambda>b. setNodeChildOffset b rootOffset 0 newNodeOffset)) (\<lambda>_.
      bind (writeB (\<lambda>b. setNodeSize b rootOffset currentSize)) (\<lambda>_.
      bind (readB (\<lambda>b. getNodeType b newNodeOffset)) (\<lambda>type2.
      bind (initNode siblingOffset type2) (\<lambda>_.
      bind (readB (\<lambda>b. getNodeHash b newNodeOffset KEY_COUNT_MIN)) (\<lambda>medianHash.
      bind (readB (\<lambda>b. getNodeKvOffset b newNodeOffset KEY_COUNT_MIN)) (\<lambda>medianKvOfs.
      bind (writeB (\<lambda>b. setNodeHash b rootOffset 0 medianHash)) (\<lambda>_.
      bind (writeB (\<lambda>b. setNodeKvOffset b rootOffset 0 medianKvOfs)) (\<lambda>_.
      bind (writeB (\<lambda>b. setNodeChildOffset b rootOffset 1 siblingOffset)) (\<lambda>_.
      bind (writeB (\<lambda>b. setNodeKeyCount b rootOffset 1)) (\<lambda>_.
      bind (forUp 0 KEY_COUNT_MIN (\<lambda>j.
             bind (readB (\<lambda>b. getNodeHash b newNodeOffset (j + KEY_COUNT_MIN + 1))) (\<lambda>h.
             bind (writeB (\<lambda>b. setNodeHash b siblingOffset j h)) (\<lambda>_.
             bind (readB (\<lambda>b. getNodeKvOffset b newNodeOffset (j + KEY_COUNT_MIN + 1))) (\<lambda>kv.
             bind (writeB (\<lambda>b. setNodeKvOffset b siblingOffset j kv)) (\<lambda>_.
             bind (readB (\<lambda>b. getNodeChildOffset b newNodeOffset (j + KEY_COUNT_MIN + 1))) (\<lambda>c.
             writeB (\<lambda>b. setNodeChildOffset b siblingOffset j c)))))))) (\<lambda>_.
      bind (readB (\<lambda>b. getNodeChildOffset b newNodeOffset KEY_COUNT_MAX)) (\<lambda>c.
      bind (writeB (\<lambda>b. setNodeChildOffset b siblingOffset KEY_COUNT_MIN c)) (\<lambda>_.
      bind (writeB (\<lambda>b. setNodeKeyCount b siblingOffset KEY_COUNT_MIN)) (\<lambda>_.
      bind (writeB (\<lambda>b. setNodeKeyCount b newNodeOffset KEY_COUNT_MIN)) (\<lambda>_.
      modify (\<lambda>s. s\<lparr>buflen := siblingOffset + NODE_SIZE\<rparr>)))))))))))))))))))))"

text \<open>\<^verbatim>\<open>_splitNode\<close> with a parent (the regular split).\<close>

definition splitChild :: "nat \<Rightarrow> nat \<Rightarrow> nat \<Rightarrow> nat \<Rightarrow> unit m" where
  "splitChild node parent parentIndex buflenAligned =
     (let siblingOffset = buflenAligned in
      bind (readB (\<lambda>b. getNodeKeyCount b parent)) (\<lambda>parentKeyCount.
      bind (forDown parentKeyCount parentIndex (\<lambda>j.
             bind (readB (\<lambda>b. getNodeHash b parent (j - 1))) (\<lambda>h.
             bind (writeB (\<lambda>b. setNodeHash b parent j h)) (\<lambda>_.
             bind (readB (\<lambda>b. getNodeKvOffset b parent (j - 1))) (\<lambda>kv.
             bind (writeB (\<lambda>b. setNodeKvOffset b parent j kv)) (\<lambda>_.
             bind (readB (\<lambda>b. getNodeChildOffset b parent j)) (\<lambda>c.
             writeB (\<lambda>b. setNodeChildOffset b parent (j + 1) c)))))))) (\<lambda>_.
      bind (readB (\<lambda>b. getNodeHash b node KEY_COUNT_MIN)) (\<lambda>medianHash.
      bind (readB (\<lambda>b. getNodeKvOffset b node KEY_COUNT_MIN)) (\<lambda>medianKvOfs.
      bind (writeB (\<lambda>b. setNodeHash b parent parentIndex medianHash)) (\<lambda>_.
      bind (writeB (\<lambda>b. setNodeKvOffset b parent parentIndex medianKvOfs)) (\<lambda>_.
      bind (writeB (\<lambda>b. setNodeChildOffset b parent (parentIndex + 1) siblingOffset)) (\<lambda>_.
      bind (writeB (\<lambda>b. setNodeKeyCount b parent (parentKeyCount + 1))) (\<lambda>_.
      bind (readB (\<lambda>b. getNodeType b node)) (\<lambda>type.
      bind (initNode siblingOffset type) (\<lambda>_.
      bind (forUp 0 KEY_COUNT_MIN (\<lambda>j.
             bind (readB (\<lambda>b. getNodeHash b node (j + KEY_COUNT_MIN + 1))) (\<lambda>h.
             bind (writeB (\<lambda>b. setNodeHash b siblingOffset j h)) (\<lambda>_.
             bind (readB (\<lambda>b. getNodeKvOffset b node (j + KEY_COUNT_MIN + 1))) (\<lambda>kv.
             bind (writeB (\<lambda>b. setNodeKvOffset b siblingOffset j kv)) (\<lambda>_.
             bind (readB (\<lambda>b. getNodeChildOffset b node (j + KEY_COUNT_MIN + 1))) (\<lambda>c.
             writeB (\<lambda>b. setNodeChildOffset b siblingOffset j c)))))))) (\<lambda>_.
      bind (readB (\<lambda>b. getNodeChildOffset b node KEY_COUNT_MAX)) (\<lambda>c.
      bind (writeB (\<lambda>b. setNodeChildOffset b siblingOffset KEY_COUNT_MIN c)) (\<lambda>_.
      bind (writeB (\<lambda>b. setNodeKeyCount b siblingOffset KEY_COUNT_MIN)) (\<lambda>_.
      bind (writeB (\<lambda>b. setNodeKeyCount b node KEY_COUNT_MIN)) (\<lambda>_.
      modify (\<lambda>s. s\<lparr>buflen := siblingOffset + NODE_SIZE\<rparr>)))))))))))))))))"

text \<open>\<^verbatim>\<open>_splitNode(rootOffset, nodeOffset, parent, parentIndex)\<close>; \<open>None\<close> is \<^verbatim>\<open>null\<close>.\<close>

definition splitNode :: "nat \<Rightarrow> nat \<Rightarrow> nat option \<Rightarrow> nat \<Rightarrow> unit m" where
  "splitNode rootOffset node parent parentIndex =
     bind (gets buflen) (\<lambda>bl.
     let buflenAligned = alignOffset bl NODE_ALIGNMENT in
     bind (modify (\<lambda>s. s\<lparr>buflen := buflenAligned\<rparr>)) (\<lambda>_.
     case parent of
       None \<Rightarrow> splitRoot rootOffset buflenAligned
     | Some p \<Rightarrow> splitChild node p parentIndex buflenAligned))"

text \<open>The loop of \<^verbatim>\<open>_findOrInsertKey\<close>; its variables \<^verbatim>\<open>nodeOffset\<close>, \<^verbatim>\<open>parent\<close>,
  \<^verbatim>\<open>parentIndex\<close> and \<^verbatim>\<open>nodeWalks\<close> are the arguments. Of \<^verbatim>\<open>keyData\<close> the loop reads the
  hash only; it does not read \<^verbatim>\<open>keyTagSize\<close> and \<^verbatim>\<open>keyEncoded\<close>.\<close>

function findOrInsertLoop ::
  "nat \<Rightarrow> nat \<Rightarrow> nat \<Rightarrow> nat option \<Rightarrow> nat \<Rightarrow> nat \<Rightarrow> find_result m" where
  "findOrInsertLoop rootOffset hash node parent parentIndex nodeWalks =
     bind (readB (\<lambda>b. getNodeKeyCount b node)) (\<lambda>kc.
     bind (if kc = KEY_COUNT_MAX
           then bind (splitNode rootOffset node parent parentIndex) (\<lambda>_.
                  case parent of
                    None \<Rightarrow> ret rootOffset
                  | Some p \<Rightarrow>
                      bind (readB (\<lambda>b. getNodeHash b p parentIndex)) (\<lambda>separatorHash.
                      if hash > separatorHash
                      then readB (\<lambda>b. getNodeChildOffset b p (parentIndex + 1))
                      else ret node))
           else ret node) (\<lambda>node.
     bind (readB (\<lambda>b. getNodeKeyCount b node)) (\<lambda>keyCount.
     bind (readB (\<lambda>b. scanKeys b node hash keyCount 0)) (\<lambda>i.
     bind (readB (\<lambda>b. keyAt b node hash keyCount i)) (\<lambda>found.
     if found then ret \<lparr>nodeOffset = node, index = i, isNew = False\<rparr>
     else
       bind (readB (\<lambda>b. hasChildren b node)) (\<lambda>hc.
       if hc
       then bind (readB (\<lambda>b. getNodeChildOffset b node i)) (\<lambda>child.
              if nodeWalks + 1 > TREE_HEIGHT_MAX then throw EBADMSG
              else findOrInsertLoop rootOffset hash child (Some node) i (nodeWalks + 1))
       else
         bind (shiftNodeEntriesRight node i keyCount) (\<lambda>_.
         bind (writeB (\<lambda>b. setNodeHash b node i hash)) (\<lambda>_.
         bind (writeB (\<lambda>b. setNodeKeyCount b node (keyCount + 1))) (\<lambda>_.
         ret \<lparr>nodeOffset = node, index = i, isNew = True\<rparr>)))))))))"
  by pat_completeness auto
termination
  by (relation "measure (\<lambda>(rootOffset, hash, node, parent, parentIndex, nodeWalks).
                  TREE_HEIGHT_MAX + 1 - nodeWalks)") auto

declare findOrInsertLoop.simps [simp del]

definition findOrInsertKey :: "nat \<Rightarrow> key_data \<Rightarrow> find_result m" where
  "findOrInsertKey rootOffset keyData =
     findOrInsertLoop rootOffset (kd_hash keyData) rootOffset None 0 0"


subsection \<open>lite3.js: writing values\<close>

text \<open>\<^verbatim>\<open>_setImpl(key, offset, type, dataSize, writeData)\<close>; the callback \<^verbatim>\<open>writeData\<close>
  receives \<^verbatim>\<open>this._buffer\<close> and the offset of the data.\<close>

definition setImpl :: "js_string \<Rightarrow> nat \<Rightarrow> nat \<Rightarrow> nat \<Rightarrow> (nat \<Rightarrow> unit m) \<Rightarrow> unit m" where
  "setImpl key offset type dataSize writeData =
     (let keyData = getKeyData key;
          keyTagSize = getKeyTagSize (kd_size keyData);
          keyEncoded = encodeString key;
          entrySize = keyTagSize + kd_size keyData + VAL_SIZE + dataSize in
      bind (ensureSpace (entrySize + NODE_SIZE * 2)) (\<lambda>_.
      bind (writeB (\<lambda>b. incrementGeneration b 0)) (\<lambda>_.
      bind (findOrInsertKey offset keyData) (\<lambda>result.
      if isNew result then
        bind (gets buflen) (\<lambda>writeOffset.
        bind (modify (\<lambda>s. s\<lparr>buffer :=
                writeKey writeOffset keyTagSize (kd_size keyData) keyEncoded (buffer s)\<rparr>)) (\<lambda>_.
        let valOffset = writeOffset + keyTagSize + kd_size keyData in
        bind (modify (\<lambda>s. s\<lparr>buffer := (buffer s)[valOffset := of_nat type]\<rparr>)) (\<lambda>_.
        bind (if dataSize > 0 then writeData (valOffset + VAL_SIZE) else ret ()) (\<lambda>_.
        bind (modify (\<lambda>s. s\<lparr>buflen := valOffset + VAL_SIZE + dataSize\<rparr>)) (\<lambda>_.
        bind (writeB (\<lambda>b. setNodeKvOffset b (nodeOffset result) (index result) writeOffset)) (\<lambda>_.
        writeB (\<lambda>b. incrementNodeSize b 0)))))))
      else
        bind (readB (\<lambda>b. getNodeKvOffset b (nodeOffset result) (index result))) (\<lambda>kvOffset.
        bind (gets (\<lambda>s. skipKey (buffer s) kvOffset)) (\<lambda>valOffset.
        bind (readB (\<lambda>b. getValueSize b valOffset)) (\<lambda>existingSize.
        let newSize = VAL_SIZE + dataSize in
        if newSize \<le> existingSize then
          bind (modify (\<lambda>s. s\<lparr>buffer := (buffer s)[valOffset := of_nat type]\<rparr>)) (\<lambda>_.
          if dataSize > 0 then writeData (valOffset + VAL_SIZE) else ret ())
        else
          bind (gets buflen) (\<lambda>writeOffset.
          bind (modify (\<lambda>s. s\<lparr>buffer :=
                  writeKey writeOffset keyTagSize (kd_size keyData) keyEncoded (buffer s)\<rparr>)) (\<lambda>_.
          let newValOffset = writeOffset + keyTagSize + kd_size keyData in
          bind (modify (\<lambda>s. s\<lparr>buffer := (buffer s)[newValOffset := of_nat type]\<rparr>)) (\<lambda>_.
          bind (if dataSize > 0 then writeData (newValOffset + VAL_SIZE) else ret ()) (\<lambda>_.
          bind (modify (\<lambda>s. s\<lparr>buflen := newValOffset + VAL_SIZE + dataSize\<rparr>)) (\<lambda>_.
          writeB (\<lambda>b. setNodeKvOffset b (nodeOffset result) (index result) writeOffset)))))))))))))"

definition setNull :: "js_string \<Rightarrow> nat \<Rightarrow> unit m" where
  "setNull key offset = setImpl key offset T_NULL 0 (\<lambda>valOffset. ret ())"

definition setBool :: "js_string \<Rightarrow> bool \<Rightarrow> nat \<Rightarrow> unit m" where
  "setBool key v offset =
     setImpl key offset T_BOOL 1
       (\<lambda>valOffset. modify (\<lambda>s. s\<lparr>buffer := (buffer s)[valOffset := (if v then 1 else 0)]\<rparr>))"

definition setInt64 :: "js_string \<Rightarrow> int \<Rightarrow> nat \<Rightarrow> unit m" where
  "setInt64 key v offset =
     setImpl key offset T_I64 8 (\<lambda>valOffset. writeB (\<lambda>b. writeInt64 b valOffset v))"

definition setFloat64 :: "js_string \<Rightarrow> 64 word \<Rightarrow> nat \<Rightarrow> unit m" where
  "setFloat64 key v offset =
     setImpl key offset T_F64 8 (\<lambda>valOffset. writeB (\<lambda>b. writeFloat64 b valOffset v))"

text \<open>The data of a string: its length with the terminator, its UTF-8 bytes, a zero.\<close>

definition writeStringData :: "bytes \<Rightarrow> nat \<Rightarrow> unit m" where
  "writeStringData encoded valOffset =
     bind (writeB (\<lambda>b. writeUint32 b valOffset (length encoded + 1))) (\<lambda>_.
     modify (\<lambda>s. s\<lparr>buffer :=
       (copyBytes (buffer s) (valOffset + 4) encoded 0 (length encoded))
         [valOffset + 4 + length encoded := 0]\<rparr>))"

definition setString :: "js_string \<Rightarrow> js_string \<Rightarrow> nat \<Rightarrow> unit m" where
  "setString key v offset =
     (let encoded = encodeString v; strSize = length encoded + 1 in
      setImpl key offset T_STRING (4 + strSize) (writeStringData encoded))"

definition writeBytesData :: "bytes \<Rightarrow> nat \<Rightarrow> unit m" where
  "writeBytesData v valOffset =
     bind (writeB (\<lambda>b. writeUint32 b valOffset (length v))) (\<lambda>_.
     modify (\<lambda>s. s\<lparr>buffer := copyBytes (buffer s) (valOffset + 4) v 0 (length v)\<rparr>))"

definition setBytes :: "js_string \<Rightarrow> bytes \<Rightarrow> nat \<Rightarrow> unit m" where
  "setBytes key v offset = setImpl key offset T_BYTES (4 + length v) (writeBytesData v)"

text \<open>\<^verbatim>\<open>_setNestedImpl(key, offset, type)\<close>, the body of \<^verbatim>\<open>setObject\<close> and \<^verbatim>\<open>setArray\<close>;
  it returns the offset of the nested node.\<close>

definition setNestedImpl :: "js_string \<Rightarrow> nat \<Rightarrow> nat \<Rightarrow> nat m" where
  "setNestedImpl key offset type =
     (let keyData = getKeyData key;
          keyTagSize = getKeyTagSize (kd_size keyData);
          keyEncoded = encodeString key in
      bind (gets buflen) (\<lambda>buflen0.
      let unalignedValOffset = buflen0 + keyTagSize + kd_size keyData;
          alignedValOffset = alignOffset unalignedValOffset NODE_ALIGNMENT;
          alignmentPadding = alignedValOffset - unalignedValOffset;
          entrySize = keyTagSize + kd_size keyData + alignmentPadding + NODE_SIZE in
      bind (ensureSpace (entrySize + NODE_SIZE * 2)) (\<lambda>_.
      bind (writeB (\<lambda>b. incrementGeneration b 0)) (\<lambda>_.
      bind (findOrInsertKey offset keyData) (\<lambda>result.
      if isNew result then
        bind (gets buflen) (\<lambda>bl.
        let writeOffset = bl + alignmentPadding in
        bind (modify (\<lambda>s. s\<lparr>buffer :=
                writeKey writeOffset keyTagSize (kd_size keyData) keyEncoded (buffer s)\<rparr>)) (\<lambda>_.
        bind (writeB (\<lambda>b. setNodeKvOffset b (nodeOffset result) (index result) writeOffset)) (\<lambda>_.
        bind (modify (\<lambda>s. s\<lparr>buflen := writeOffset + keyTagSize + kd_size keyData\<rparr>)) (\<lambda>_.
        bind (gets buflen) (\<lambda>bl2.
        let newNode = alignOffset bl2 NODE_ALIGNMENT in
        bind (modify (\<lambda>s. s\<lparr>buflen := newNode + NODE_SIZE\<rparr>)) (\<lambda>_.
        bind (initNode newNode type) (\<lambda>_.
        bind (writeB (\<lambda>b. incrementNodeSize b 0)) (\<lambda>_.
        ret newNode))))))))
      else
        bind (readB (\<lambda>b. getNodeKvOffset b (nodeOffset result) (index result))) (\<lambda>kvOffset.
        bind (gets (\<lambda>s. skipKey (buffer s) kvOffset)) (\<lambda>valOffset.
        bind (gets (\<lambda>s. byteOpt (buffer s) valOffset)) (\<lambda>existingType.
        if existingType = Some T_OBJECT \<or> existingType = Some T_ARRAY then
          bind (initNode valOffset type) (\<lambda>_. ret valOffset)
        else
          bind (gets buflen) (\<lambda>bl.
          let newNode = alignOffset bl NODE_ALIGNMENT in
          bind (modify (\<lambda>s. s\<lparr>buflen := newNode + NODE_SIZE\<rparr>)) (\<lambda>_.
          bind (initNode newNode type) (\<lambda>_.
          bind (gets buflen) (\<lambda>bl2.
          let writeOffset = alignOffset bl2 NODE_ALIGNMENT - NODE_SIZE in
          bind (modify (\<lambda>s. s\<lparr>buffer :=
                  writeKey writeOffset keyTagSize (kd_size keyData) keyEncoded (buffer s)\<rparr>)) (\<lambda>_.
          bind (writeB (\<lambda>b. setNodeKvOffset b (nodeOffset result) (index result) writeOffset)) (\<lambda>_.
          ret newNode))))))))))))))"

definition setObject :: "js_string \<Rightarrow> nat \<Rightarrow> nat m" where
  "setObject key offset = setNestedImpl key offset T_OBJECT"

definition setArray :: "js_string \<Rightarrow> nat \<Rightarrow> nat m" where
  "setArray key offset = setNestedImpl key offset T_ARRAY"

text \<open>\<^verbatim>\<open>_appendPrimitiveImpl(arrayOffset, index, type, dataSize, writeData)\<close>\<close>

definition appendPrimitiveImpl ::
  "nat \<Rightarrow> nat \<Rightarrow> nat \<Rightarrow> nat \<Rightarrow> (nat \<Rightarrow> unit m) \<Rightarrow> unit m" where
  "appendPrimitiveImpl arrayOffset idx type dataSize writeData =
     (let entrySize = VAL_SIZE + dataSize in
      bind (ensureSpace (entrySize + NODE_SIZE * 2)) (\<lambda>_.
      bind (writeB (\<lambda>b. incrementGeneration b 0)) (\<lambda>_.
      bind (findOrInsertKey arrayOffset \<lparr>kd_hash = idx, kd_size = 0\<rparr>) (\<lambda>result.
      bind (gets buflen) (\<lambda>valOffset.
      bind (modify (\<lambda>s. s\<lparr>buffer := (buffer s)[valOffset := of_nat type]\<rparr>)) (\<lambda>_.
      bind (if dataSize > 0 then writeData (valOffset + VAL_SIZE) else ret ()) (\<lambda>_.
      bind (modify (\<lambda>s. s\<lparr>buflen := buflen s + (VAL_SIZE + dataSize)\<rparr>)) (\<lambda>_.
      bind (writeB (\<lambda>b. setNodeKvOffset b (nodeOffset result) (index result) valOffset)) (\<lambda>_.
      if isNew result then writeB (\<lambda>b. incrementNodeSize b arrayOffset) else ret ())))))))))"

text \<open>\<^verbatim>\<open>_appendNestedImpl(arrayOffset, index, type)\<close>\<close>

definition appendNestedImpl :: "nat \<Rightarrow> nat \<Rightarrow> nat \<Rightarrow> nat m" where
  "appendNestedImpl arrayOffset idx type =
     bind (ensureSpace (NODE_SIZE * 3)) (\<lambda>_.
     bind (writeB (\<lambda>b. incrementGeneration b 0)) (\<lambda>_.
     bind (findOrInsertKey arrayOffset \<lparr>kd_hash = idx, kd_size = 0\<rparr>) (\<lambda>result.
     bind (gets buflen) (\<lambda>bl.
     let newNode = alignOffset bl NODE_ALIGNMENT in
     bind (modify (\<lambda>s. s\<lparr>buflen := newNode + NODE_SIZE\<rparr>)) (\<lambda>_.
     bind (initNode newNode type) (\<lambda>_.
     bind (writeB (\<lambda>b. setNodeKvOffset b (nodeOffset result) (index result) newNode)) (\<lambda>_.
     bind (if isNew result then writeB (\<lambda>b. incrementNodeSize b arrayOffset) else ret ()) (\<lambda>_.
     ret newNode))))))))"

subsection \<open>lite3.js: the generic \<^verbatim>\<open>set\<close> and \<^verbatim>\<open>appendValue\<close>\<close>

text \<open>
  The values a caller can pass. A number is given by what the code reads of it: its
  IEEE-754 bits and, when \<^verbatim>\<open>Number.isInteger\<close> holds, its integer value. The entries of
  an object are listed in the order of \<^verbatim>\<open>Object.entries\<close>. \<open>VOther\<close> stands for every
  value whose \<^verbatim>\<open>typeof\<close> is none of those tested (\<^verbatim>\<open>undefined\<close>, a function, a symbol).
\<close>

datatype js_arg =
    VNull
  | VBool bool
  | VNumber "64 word" "int option"
  | VBigInt int
  | VString js_string
  | VBytes bytes
  | VArray "js_arg list"
  | VObject "(js_string \<times> js_arg) list"
  | VOther

definition MAX_SAFE_INTEGER :: int where
  "MAX_SAFE_INTEGER = 9007199254740991"

text \<open>\<^verbatim>\<open>Number.isInteger(value) && value >= -9007199254740991 && value <= 9007199254740991\<close>\<close>

definition safeInteger :: "int option \<Rightarrow> int option" where
  "safeInteger iv =
     (case iv of None \<Rightarrow> None
      | Some n \<Rightarrow> if - MAX_SAFE_INTEGER \<le> n \<and> n \<le> MAX_SAFE_INTEGER then Some n else None)"

fun set_value :: "js_string \<Rightarrow> js_arg \<Rightarrow> nat \<Rightarrow> unit m"
  and set_entries :: "(js_string \<times> js_arg) list \<Rightarrow> nat \<Rightarrow> unit m"
  and appendValue :: "js_arg \<Rightarrow> nat \<Rightarrow> unit m"
  and append_items :: "js_arg list \<Rightarrow> nat \<Rightarrow> unit m"
where
  "set_value key VNull offset = bind checkInitialized (\<lambda>_. setNull key offset)"
| "set_value key (VBool v) offset = bind checkInitialized (\<lambda>_. setBool key v offset)"
| "set_value key (VNumber bits iv) offset =
     bind checkInitialized (\<lambda>_.
       case safeInteger iv of
         Some n \<Rightarrow> setInt64 key n offset
       | None \<Rightarrow> setFloat64 key bits offset)"
| "set_value key (VBigInt n) offset = bind checkInitialized (\<lambda>_. setInt64 key n offset)"
| "set_value key (VString v) offset = bind checkInitialized (\<lambda>_. setString key v offset)"
| "set_value key (VBytes v) offset = bind checkInitialized (\<lambda>_. setBytes key v offset)"
| "set_value key (VArray vs) offset =
     bind checkInitialized (\<lambda>_.
     bind (setArray key offset) (\<lambda>arrOffset. append_items vs arrOffset))"
| "set_value key (VObject kvs) offset =
     bind checkInitialized (\<lambda>_.
     bind (setObject key offset) (\<lambda>objOffset. set_entries kvs objOffset))"
| "set_value key VOther offset = bind checkInitialized (\<lambda>_. throw EINVAL)"
| "set_entries [] objOffset = ret ()"
| "set_entries ((k, v) # kvs) objOffset =
     bind (set_value k v objOffset) (\<lambda>_. set_entries kvs objOffset)"
| "appendValue VNull arrayOffset =
     bind (readB (\<lambda>b. getNodeSize b arrayOffset)) (\<lambda>idx.
     appendPrimitiveImpl arrayOffset idx T_NULL 0 (\<lambda>off. ret ()))"
| "appendValue (VBool v) arrayOffset =
     bind (readB (\<lambda>b. getNodeSize b arrayOffset)) (\<lambda>idx.
     appendPrimitiveImpl arrayOffset idx T_BOOL 1
       (\<lambda>off. modify (\<lambda>s. s\<lparr>buffer := (buffer s)[off := (if v then 1 else 0)]\<rparr>)))"
| "appendValue (VNumber bits iv) arrayOffset =
     bind (readB (\<lambda>b. getNodeSize b arrayOffset)) (\<lambda>idx.
     case safeInteger iv of
       Some n \<Rightarrow> appendPrimitiveImpl arrayOffset idx T_I64 8
                   (\<lambda>off. writeB (\<lambda>b. writeInt64 b off n))
     | None \<Rightarrow> appendPrimitiveImpl arrayOffset idx T_F64 8
                   (\<lambda>off. writeB (\<lambda>b. writeFloat64 b off bits)))"
| "appendValue (VBigInt n) arrayOffset =
     bind (readB (\<lambda>b. getNodeSize b arrayOffset)) (\<lambda>idx.
     appendPrimitiveImpl arrayOffset idx T_I64 8 (\<lambda>off. writeB (\<lambda>b. writeInt64 b off n)))"
| "appendValue (VString v) arrayOffset =
     bind (readB (\<lambda>b. getNodeSize b arrayOffset)) (\<lambda>idx.
     appendPrimitiveImpl arrayOffset idx T_STRING (4 + (length (encodeString v) + 1))
       (writeStringData (encodeString v)))"
| "appendValue (VBytes v) arrayOffset =
     bind (readB (\<lambda>b. getNodeSize b arrayOffset)) (\<lambda>idx.
     appendPrimitiveImpl arrayOffset idx T_BYTES (4 + length v) (writeBytesData v))"
| "appendValue (VArray vs) arrayOffset =
     bind (readB (\<lambda>b. getNodeSize b arrayOffset)) (\<lambda>idx.
     bind (appendNestedImpl arrayOffset idx T_ARRAY) (\<lambda>arrOff. append_items vs arrOff))"
| "appendValue (VObject kvs) arrayOffset =
     bind (readB (\<lambda>b. getNodeSize b arrayOffset)) (\<lambda>idx.
     bind (appendNestedImpl arrayOffset idx T_OBJECT) (\<lambda>objOff. set_entries kvs objOff))"
| "appendValue VOther arrayOffset =
     bind (readB (\<lambda>b. getNodeSize b arrayOffset)) (\<lambda>idx. ret ())"
| "append_items [] arrOff = ret ()"
| "append_items (v # vs) arrOff = bind (appendValue v arrOff) (\<lambda>_. append_items vs arrOff)"


subsection \<open>lite3.js: reading\<close>

text \<open>The loop of \<^verbatim>\<open>_findKey\<close>; \<open>None\<close> is \<^verbatim>\<open>null\<close>.\<close>

function findKeyLoop :: "bytes \<Rightarrow> nat \<Rightarrow> nat \<Rightarrow> nat \<Rightarrow> error + (nat \<times> nat) option" where
  "findKeyLoop b hash node nodeWalks =
     bindR (getNodeKeyCount b node) (\<lambda>keyCount.
     bindR (scanKeys b node hash keyCount 0) (\<lambda>i.
     bindR (keyAt b node hash keyCount i) (\<lambda>found.
     if found then Inr (Some (node, i))
     else
       bindR (hasChildren b node) (\<lambda>hc.
       if hc
       then bindR (getNodeChildOffset b node i) (\<lambda>child.
              if nodeWalks + 1 > TREE_HEIGHT_MAX then Inl EBADMSG
              else findKeyLoop b hash child (nodeWalks + 1))
       else Inr None))))"
  by pat_completeness auto
termination
  by (relation "measure (\<lambda>(b, hash, node, nodeWalks). TREE_HEIGHT_MAX + 1 - nodeWalks)") auto

declare findKeyLoop.simps [simp del]

definition findKey :: "bytes \<Rightarrow> nat \<Rightarrow> nat \<Rightarrow> error + (nat \<times> nat) option" where
  "findKey b rootOffset hash = findKeyLoop b hash rootOffset 0"

text \<open>\<^verbatim>\<open>has(key, offset)\<close>\<close>

definition has :: "lite3 \<Rightarrow> js_string \<Rightarrow> nat \<Rightarrow> error + bool" where
  "has s key offset =
     (if \<not> initialized s then Inl EINVAL
      else mapR (\<lambda>result. result \<noteq> None)
             (findKey (buffer s) offset (kd_hash (getKeyData key))))"

text \<open>\<^verbatim>\<open>size(offset)\<close>\<close>

definition size_node :: "lite3 \<Rightarrow> nat \<Rightarrow> error + nat" where
  "size_node s offset =
     (if \<not> initialized s then Inl EINVAL else getNodeSize (buffer s) offset)"

subsection \<open>lite3.js: the generator \<^verbatim>\<open>_iterate\<close>\<close>

text \<open>
  The generator is a state machine. Its state between two calls of \<^verbatim>\<open>next()\<close> is the
  flag \<^verbatim>\<open>isObject\<close> and the stack of \<^verbatim>\<open>{nodeOffset, index}\<close> frames, here with the top
  of the stack first. \<open>IterStart\<close> is the generator before its first \<^verbatim>\<open>next()\<close>: calling
  a generator function runs none of its body. Both \<^verbatim>\<open>yield\<close> statements are followed
  by the same code on the frame on top of the stack (\<open>iterAdvance\<close>).
  Every access goes to \<^verbatim>\<open>this._buffer\<close> as it is at that moment.
\<close>

type_synonym frame = "nat \<times> nat"

datatype iterator =
    IterStart nat
  | IterSuspended bool "frame list"
  | IterDone

record iter_entry =
  e_key :: "js_string option"
  e_valueOffset :: nat

text \<open>\<^verbatim>\<open>while (hasChildren(buffer, top.nodeOffset)) stack.push({child 0 of top, 0})\<close>. The
  loop does not end on a buffer whose child offsets form a cycle: \<open>None\<close>.\<close>

partial_function (option) leftmost :: "bytes \<Rightarrow> frame list \<Rightarrow> (error + frame list) option" where
  "leftmost b stack =
     (case stack of
        [] \<Rightarrow> Some (Inr [])
      | (node, i) # rest \<Rightarrow>
          (case hasChildren b node of
             Inl e \<Rightarrow> Some (Inl e)
           | Inr hc \<Rightarrow>
               if hc
               then (case getNodeChildOffset b node 0 of
                       Inl e \<Rightarrow> Some (Inl e)
                     | Inr childOffset \<Rightarrow> leftmost b ((childOffset, 0) # stack))
               else Some (Inr stack)))"

text \<open>The outer \<^verbatim>\<open>while (stack.length > 0)\<close> up to the next \<^verbatim>\<open>yield\<close>: the offset of the
  entry to yield and the stack at that moment, or \<open>None\<close> when the stack is empty.\<close>

fun iterLoop :: "bytes \<Rightarrow> frame list \<Rightarrow> error + (nat \<times> frame list) option" where
  "iterLoop b [] = Inr None"
| "iterLoop b ((node, i) # rest) =
     bindR (getNodeKeyCount b node) (\<lambda>keyCount.
     if i \<ge> keyCount then
       (case rest of
          [] \<Rightarrow> Inr None
        | (pnode, pindex) # rest' \<Rightarrow>
            bindR (getNodeKeyCount b pnode) (\<lambda>parentKeyCount.
            if pindex < parentKeyCount
            then mapR (\<lambda>kvOffset. Some (kvOffset, rest)) (getNodeKvOffset b pnode pindex)
            else iterLoop b rest))
     else mapR (\<lambda>kvOffset. Some (kvOffset, (node, i) # rest)) (getNodeKvOffset b node i))"

declare iterLoop.simps(2) [simp del]

text \<open>After a \<^verbatim>\<open>yield\<close>: \<^verbatim>\<open>top.index++\<close>, then, when the node has children, push the child
  at the new index and walk to its leftmost leaf.\<close>

definition iterAdvance :: "bytes \<Rightarrow> frame list \<Rightarrow> (error + frame list) option" where
  "iterAdvance b stack =
     (case stack of
        [] \<Rightarrow> Some (Inr [])
      | (node, i) # rest \<Rightarrow>
          (case hasChildren b node of
             Inl e \<Rightarrow> Some (Inl e)
           | Inr hc \<Rightarrow>
               if hc
               then (case getNodeChildOffset b node (i + 1) of
                       Inl e \<Rightarrow> Some (Inl e)
                     | Inr childOffset \<Rightarrow> leftmost b ((childOffset, 0) # (node, i + 1) # rest))
               else Some (Inr ((node, i + 1) # rest))))"

text \<open>\<^verbatim>\<open>yield { key, valueOffset }\<close>\<close>

definition iterYield :: "bytes \<Rightarrow> bool \<Rightarrow> nat \<Rightarrow> iter_entry" where
  "iterYield b isObject kvOffset =
     (if isObject then \<lparr>e_key = Some (readKey b kvOffset), e_valueOffset = skipKey b kvOffset\<rparr>
      else \<lparr>e_key = None, e_valueOffset = kvOffset\<rparr>)"

text \<open>The run of the generator from the top of the outer loop to its next \<^verbatim>\<open>yield\<close>:
  the entry it has arrived at, given by \<^verbatim>\<open>isObject\<close> and the entry's \<^verbatim>\<open>kvOffset\<close>, and the
  generator as it is suspended there.\<close>

definition iterRun ::
  "bytes \<Rightarrow> bool \<Rightarrow> frame list \<Rightarrow> error + ((bool \<times> nat) option \<times> iterator)" where
  "iterRun b isObject stack =
     mapR (\<lambda>r. case r of
                 None \<Rightarrow> (None, IterDone)
               | Some (kvOffset, stack') \<Rightarrow>
                   (Some (isObject, kvOffset), IterSuspended isObject stack'))
       (iterLoop b stack)"

text \<open>One call of \<^verbatim>\<open>next()\<close> up to the \<^verbatim>\<open>yield\<close> it reaches.\<close>

definition iterLocate ::
  "bytes \<Rightarrow> iterator \<Rightarrow> (error + ((bool \<times> nat) option \<times> iterator)) option" where
  "iterLocate b it =
     (case it of
        IterDone \<Rightarrow> Some (Inr (None, IterDone))
      | IterStart rootOffset \<Rightarrow>
          (case getNodeType b rootOffset of
             Inl e \<Rightarrow> Some (Inl e)
           | Inr type \<Rightarrow>
               (case leftmost b [(rootOffset, 0)] of
                  None \<Rightarrow> None
                | Some (Inl e) \<Rightarrow> Some (Inl e)
                | Some (Inr stack) \<Rightarrow> Some (iterRun b (type = T_OBJECT) stack)))
      | IterSuspended isObject stack \<Rightarrow>
          (case iterAdvance b stack of
             None \<Rightarrow> None
           | Some (Inl e) \<Rightarrow> Some (Inl e)
           | Some (Inr stack') \<Rightarrow> Some (iterRun b isObject stack')))"

text \<open>One call of \<^verbatim>\<open>next()\<close> on the generator: the entry it yields (\<open>None\<close> when it is
  done) and the generator afterwards.\<close>

definition iterNext :: "bytes \<Rightarrow> iterator \<Rightarrow> (error + (iter_entry option \<times> iterator)) option" where
  "iterNext b it =
     map_option
       (mapR (\<lambda>(found, it').
          (map_option (\<lambda>(isObject, kvOffset). iterYield b isObject kvOffset) found, it')))
       (iterLocate b it)"

text \<open>\<^verbatim>\<open>for (const entry of this._iterate(rootOffset))\<close> with a body that does not write:
  all entries, in the order they are yielded.\<close>

partial_function (option) iterDrain ::
  "bytes \<Rightarrow> iterator \<Rightarrow> iter_entry list \<Rightarrow> (error + iter_entry list) option" where
  "iterDrain b it acc =
     (case iterNext b it of
        None \<Rightarrow> None
      | Some (Inl e) \<Rightarrow> Some (Inl e)
      | Some (Inr (None, it')) \<Rightarrow> Some (Inr (rev acc))
      | Some (Inr (Some entry, it')) \<Rightarrow> iterDrain b it' (entry # acc))"

definition iterate :: "bytes \<Rightarrow> nat \<Rightarrow> (error + iter_entry list) option" where
  "iterate b rootOffset = iterDrain b (IterStart rootOffset) []"

text \<open>\<^verbatim>\<open>keys(offset)\<close>: the keys of the entries that have one.\<close>

definition keys :: "lite3 \<Rightarrow> nat \<Rightarrow> (error + js_string list) option" where
  "keys s offset =
     (if \<not> initialized s then Some (Inl EINVAL)
      else map_option (mapR (\<lambda>es. List.map_filter e_key es)) (iterate (buffer s) offset))"

subsection \<open>lite3.js: reading values\<close>

text \<open>
  What a read returns. \<open>JNumber\<close> is a number with an integer value, \<open>JDouble\<close> a
  number given by its IEEE-754 bits, \<open>JBytes\<close> a new \<^verbatim>\<open>Uint8Array\<close>, \<open>JArray\<close> an array
  and \<open>JObject\<close> a plain object, given by its own properties in the order in which they
  were created.
\<close>

datatype js_value =
    JUndefined
  | JNull
  | JBool bool
  | JNumber int
  | JBigInt int
  | JDouble "64 word"
  | JString js_string
  | JBytes bytes
  | JObject "(js_string \<times> js_value) list"
  | JArray "js_value list"

text \<open>\<^verbatim>\<open>result[key] = value\<close> on an object made by \<^verbatim>\<open>{}\<close>: a property that exists
  keeps its place and gets the value, a new one comes last. The key \<^verbatim>\<open>__proto__\<close> is the
  accessor of \<^verbatim>\<open>Object.prototype\<close>: the assignment creates no property. A key that is
  \<^verbatim>\<open>null\<close> names the property \<^verbatim>\<open>"null"\<close>.\<close>

fun setProperty ::
  "(js_string \<times> js_value) list \<Rightarrow> js_string \<Rightarrow> js_value \<Rightarrow> (js_string \<times> js_value) list" where
  "setProperty [] k v = [(k, v)]"
| "setProperty ((k', v') # props) k v =
     (if k' = k then (k', v) # props else (k', v') # setProperty props k v)"

definition propertyKey :: "js_string option \<Rightarrow> js_string" where
  "propertyKey key = (case key of Some k \<Rightarrow> k | None \<Rightarrow> map of_char ''null'')"

definition assignProperty ::
  "(js_string \<times> js_value) list \<Rightarrow> js_string option \<Rightarrow> js_value \<Rightarrow> (js_string \<times> js_value) list" where
  "assignProperty props key v =
     (if propertyKey key = map of_char ''__proto__'' then props
      else setProperty props (propertyKey key) v)"

text \<open>
  \<^verbatim>\<open>_readValue\<close>, \<^verbatim>\<open>_readObject\<close> and \<^verbatim>\<open>_readArray\<close> call each other; they are one
  function of the call to make:
  \<^item> \<open>ReadValue valOffset\<close> is \<^verbatim>\<open>_readValue(valOffset)\<close>;
  \<^item> \<open>ReadObject it result\<close> is the loop \<^verbatim>\<open>for (... of this._iterate(nodeOffset))\<close> of
    \<^verbatim>\<open>_readObject\<close> with the generator \<open>it\<close> and the properties assigned so far;
  \<^item> \<open>ReadArray nodeOff i size result\<close> is the loop of \<^verbatim>\<open>_readArray\<close> at index \<open>i\<close>
    with the elements pushed so far.

  A buffer in which a node is nested in itself makes these calls recur without end, and
  the generator may not return: \<open>None\<close>.
\<close>

datatype read_call =
    ReadValue nat
  | ReadObject iterator "(js_string \<times> js_value) list"
  | ReadArray nat nat nat "js_value list"

partial_function (option) readCall :: "bytes \<Rightarrow> read_call \<Rightarrow> (error + js_value) option" where
  "readCall b call =
     (case call of
        ReadValue valOffset \<Rightarrow>
          (case byteOpt b valOffset of
             None \<Rightarrow> Some (Inl EBADMSG)
           | Some type \<Rightarrow>
               if type = T_NULL then Some (Inr JNull)
               else if type = T_BOOL then
                 Some (Inr (JBool (byteOpt b (valOffset + VAL_SIZE) \<noteq> Some 0)))
               else if type = T_I64 then
                 Some (mapR (\<lambda>v. if - MAX_SAFE_INTEGER \<le> v \<and> v \<le> MAX_SAFE_INTEGER
                                 then JNumber v else JBigInt v)
                         (readInt64 b (valOffset + VAL_SIZE)))
               else if type = T_F64 then Some (mapR JDouble (readFloat64 b (valOffset + VAL_SIZE)))
               else if type = T_STRING then
                 Some (mapR (\<lambda>len. JString (decodeString b (valOffset + VAL_SIZE + 4) (len - 1)))
                         (readUint32 b (valOffset + VAL_SIZE)))
               else if type = T_BYTES then
                 Some (mapR (\<lambda>len. JBytes (take len (drop (valOffset + VAL_SIZE + 4) b)))
                         (readUint32 b (valOffset + VAL_SIZE)))
               else if type = T_OBJECT then readCall b (ReadObject (IterStart valOffset) [])
               else if type = T_ARRAY then
                 (case getNodeSize b valOffset of
                    Inl e \<Rightarrow> Some (Inl e)
                  | Inr sz \<Rightarrow> readCall b (ReadArray valOffset 0 sz []))
               else Some (Inl EBADMSG))
      | ReadObject it result \<Rightarrow>
          (case iterNext b it of
             None \<Rightarrow> None
           | Some (Inl e) \<Rightarrow> Some (Inl e)
           | Some (Inr (None, it')) \<Rightarrow> Some (Inr (JObject result))
           | Some (Inr (Some entry, it')) \<Rightarrow>
               Option.bind (readCall b (ReadValue (e_valueOffset entry))) (\<lambda>r.
               case r of
                 Inl e \<Rightarrow> Some (Inl e)
               | Inr v \<Rightarrow> readCall b (ReadObject it' (assignProperty result (e_key entry) v))))
      | ReadArray nodeOff i sz result \<Rightarrow>
          if i < sz then
            (case findKey b nodeOff i of
               Inl e \<Rightarrow> Some (Inl e)
             | Inr None \<Rightarrow> readCall b (ReadArray nodeOff (i + 1) sz result)
             | Inr (Some (node, idx)) \<Rightarrow>
                 (case getNodeKvOffset b node idx of
                    Inl e \<Rightarrow> Some (Inl e)
                  | Inr kvOffset \<Rightarrow>
                      Option.bind (readCall b (ReadValue kvOffset)) (\<lambda>r.
                      case r of
                        Inl e \<Rightarrow> Some (Inl e)
                      | Inr v \<Rightarrow> readCall b (ReadArray nodeOff (i + 1) sz (result @ [v])))))
          else Some (Inr (JArray result)))"

definition readValue :: "bytes \<Rightarrow> nat \<Rightarrow> (error + js_value) option" where
  "readValue b valOffset = readCall b (ReadValue valOffset)"

definition readObject :: "bytes \<Rightarrow> nat \<Rightarrow> (error + js_value) option" where
  "readObject b nodeOff = readCall b (ReadObject (IterStart nodeOff) [])"

definition readArray :: "bytes \<Rightarrow> nat \<Rightarrow> (error + js_value) option" where
  "readArray b nodeOff =
     (case getNodeSize b nodeOff of
        Inl e \<Rightarrow> Some (Inl e)
      | Inr sz \<Rightarrow> readCall b (ReadArray nodeOff 0 sz []))"

text \<open>\<^verbatim>\<open>get(key, offset)\<close>\<close>

definition get :: "lite3 \<Rightarrow> js_string \<Rightarrow> nat \<Rightarrow> (error + js_value) option" where
  "get s key offset =
     (if \<not> initialized s then Some (Inl EINVAL)
      else
        (case findKey (buffer s) offset (kd_hash (getKeyData key)) of
           Inl e \<Rightarrow> Some (Inl e)
         | Inr None \<Rightarrow> Some (Inr JUndefined)
         | Inr (Some (node, i)) \<Rightarrow>
             (case getNodeKvOffset (buffer s) node i of
                Inl e \<Rightarrow> Some (Inl e)
              | Inr kvOffset \<Rightarrow> readValue (buffer s) (skipKey (buffer s) kvOffset))))"

text \<open>\<^verbatim>\<open>getAt(index, arrayOffset)\<close>\<close>

definition getAt :: "lite3 \<Rightarrow> nat \<Rightarrow> nat \<Rightarrow> (error + js_value) option" where
  "getAt s idx arrayOffset =
     (if \<not> initialized s then Some (Inl EINVAL)
      else
        (case findKey (buffer s) arrayOffset idx of
           Inl e \<Rightarrow> Some (Inl e)
         | Inr None \<Rightarrow> Some (Inr JUndefined)
         | Inr (Some (node, i)) \<Rightarrow>
             (case getNodeKvOffset (buffer s) node i of
                Inl e \<Rightarrow> Some (Inl e)
              | Inr kvOffset \<Rightarrow> readValue (buffer s) kvOffset)))"

text \<open>\<^verbatim>\<open>toJSON()\<close>\<close>

definition toJSON :: "lite3 \<Rightarrow> (error + js_value) option" where
  "toJSON s =
     (if \<not> initialized s then Some (Inl EINVAL)
      else
        (case getNodeType (buffer s) 0 of
           Inl e \<Rightarrow> Some (Inl e)
         | Inr type \<Rightarrow>
             if type = T_OBJECT then readObject (buffer s) 0
             else if type = T_ARRAY then readArray (buffer s) 0
             else Some (Inl EBADMSG)))"


section \<open>Running the code on a concrete buffer\<close>

text \<open>
  The runs below are evaluated by the simplifier. A concrete array is written
  \<open>bufT z t n\<close>: \<open>n\<close> bytes, byte 0 is \<open>z\<close> and byte \<open>i > 0\<close> is found in the binary
  trie \<open>t\<close> under the binary numeral \<open>i\<close> (0 when it is not there). The lemmas of this
  section turn the reads and writes of the model on such an array into trie look-ups
  and updates; the congruence rules keep the simplifier from walking through the
  array and through code that is not yet applied to a state.
\<close>

datatype trie = Lf | Nd trie "8 word" trie

fun tlk :: "trie \<Rightarrow> num \<Rightarrow> 8 word" where
  "tlk Lf n = 0"
| "tlk (Nd l v r) num.One = v"
| "tlk (Nd l v r) (num.Bit0 n) = tlk l n"
| "tlk (Nd l v r) (num.Bit1 n) = tlk r n"

fun tupd :: "num \<Rightarrow> 8 word \<Rightarrow> trie \<Rightarrow> trie" where
  "tupd num.One x Lf = Nd Lf x Lf"
| "tupd (num.Bit0 n) x Lf = Nd (tupd n x Lf) 0 Lf"
| "tupd (num.Bit1 n) x Lf = Nd Lf 0 (tupd n x Lf)"
| "tupd num.One x (Nd l v r) = Nd l x r"
| "tupd (num.Bit0 n) x (Nd l v r) = Nd (tupd n x l) v r"
| "tupd (num.Bit1 n) x (Nd l v r) = Nd l v (tupd n x r)"

definition bufT :: "8 word \<Rightarrow> trie \<Rightarrow> nat \<Rightarrow> bytes" where
  "bufT z t n = map (\<lambda>i. if i = 0 then z else tlk t (num_of_nat i)) [0..<n]"

lemma tlk_tupd: "tlk (tupd k x t) k' = (if k = k' then x else tlk t k')"
proof (induction k x t arbitrary: k' rule: tupd.induct)
  case (1 x) then show ?case by (cases k') simp_all
next
  case (2 n x) then show ?case by (cases k') simp_all
next
  case (3 n x) then show ?case by (cases k') simp_all
next
  case (4 x l v r) then show ?case by (cases k') simp_all
next
  case (5 n x l v r) then show ?case by (cases k') simp_all
next
  case (6 n x l v r) then show ?case by (cases k') simp_all
qed

lemma length_bufT: "length (bufT z t n) = n"
  by (simp add: bufT_def)

lemma nth_bufT: "i < n \<Longrightarrow> bufT z t n ! i = (if i = 0 then z else tlk t (num_of_nat i))"
  by (simp add: bufT_def)

lemma replicate_bufT: "replicate n 0 = bufT 0 Lf n"
  by (rule nth_equalityI) (simp_all add: length_bufT nth_bufT)

lemma upd_bufT_0: "(bufT z t n)[0 := w] = bufT w t n"
  by (rule nth_equalityI) (auto simp: length_bufT nth_bufT nth_list_update)

lemma nth_bufT_pos: "j < n \<Longrightarrow> 0 < j \<Longrightarrow> bufT z t n ! j = tlk t (num_of_nat j)"
  by (simp add: nth_bufT)

lemma nth_bufT_zero: "0 < n \<Longrightarrow> bufT z t n ! 0 = z"
  by (simp add: nth_bufT)

lemma upd_bufT_num_in:
  assumes "numeral k < n"
  shows "(bufT z t n)[numeral k := w] = bufT z (tupd k w t) n"
proof (rule nth_equalityI)
  show "length ((bufT z t n)[numeral k := w]) = length (bufT z (tupd k w t) n)"
    by (simp add: length_bufT)
next
  fix j assume "j < length ((bufT z t n)[numeral k := w])"
  then have j: "j < n" by (simp add: length_bufT)
  have len: "numeral k < length (bufT z t n)" using assms by (simp add: length_bufT)
  show "(bufT z t n)[numeral k := w] ! j = bufT z (tupd k w t) n ! j"
  proof (cases "j = numeral k")
    case True
    have "(bufT z t n)[numeral k := w] ! numeral k = w"
      using len by (rule nth_list_update_eq)
    moreover have "bufT z (tupd k w t) n ! numeral k = tlk (tupd k w t) (num_of_nat (numeral k))"
      using assms by (intro nth_bufT_pos) simp_all
    moreover have "tlk (tupd k w t) (num_of_nat (numeral k)) = w"
      by (simp only: num_of_nat_numeral_eq tlk_tupd refl if_True)
    ultimately show ?thesis using True by simp
  next
    case False
    then have neq: "numeral k \<noteq> j" by simp
    have lhs: "(bufT z t n)[numeral k := w] ! j = bufT z t n ! j"
      using neq by (rule nth_list_update_neq)
    show ?thesis
    proof (cases "j = 0")
      case True
      have "bufT z t n ! 0 = z" "bufT z (tupd k w t) n ! 0 = z"
        using j True by (simp_all add: nth_bufT_zero)
      then show ?thesis using lhs True by simp
    next
      case j0: False
      then have pos: "0 < j" by simp
      then have "numeral (num_of_nat j) = j" by (rule numeral_num_of_nat)
      with False have nk: "k \<noteq> num_of_nat j" by auto
      have "bufT z (tupd k w t) n ! j = tlk (tupd k w t) (num_of_nat j)"
        using j pos by (rule nth_bufT_pos)
      also have "\<dots> = tlk t (num_of_nat j)"
        using nk by (simp only: tlk_tupd if_False)
      also have "\<dots> = bufT z t n ! j"
        using j pos by (rule nth_bufT_pos [symmetric])
      finally show ?thesis using lhs by simp
    qed
  qed
qed

lemma upd_bufT_num: "(bufT z t n)[numeral k := w] = (if numeral k < n then bufT z (tupd k w t) n else bufT z t n)"
proof (cases "numeral k < n")
  case True then show ?thesis by (simp only: upd_bufT_num_in if_True)
next
  case False
  then have "length (bufT z t n) \<le> numeral k" by (simp add: length_bufT)
  then have "(bufT z t n)[numeral k := w] = bufT z t n" by (rule list_update_beyond)
  with False show ?thesis by (simp only: if_False)
qed

lemma upd_bufT_1: "(bufT z t n)[Suc 0 := w] = (if Suc 0 < n then bufT z (tupd num.One w t) n else bufT z t n)"
  using upd_bufT_num[of z t n num.One w] by simp

lemma byteAt_bufT_0: "byteAt (bufT z t n) 0 = (if 0 < n then unat z else 0)"
  by (simp add: byteAt_def length_bufT nth_bufT)
lemma byteAt_bufT_num: "byteAt (bufT z t n) (numeral k) = (if numeral k < n then unat (tlk t k) else 0)"
  by (simp add: byteAt_def length_bufT nth_bufT)
lemma byteAt_bufT_1: "byteAt (bufT z t n) (Suc 0) = (if Suc 0 < n then unat (tlk t num.One) else 0)"
  by (simp add: byteAt_def length_bufT nth_bufT)
lemma byteOpt_bufT_0: "byteOpt (bufT z t n) 0 = (if 0 < n then Some (unat z) else None)"
  by (simp add: byteOpt_def length_bufT nth_bufT)
lemma byteOpt_bufT_num: "byteOpt (bufT z t n) (numeral k) = (if numeral k < n then Some (unat (tlk t k)) else None)"
  by (simp add: byteOpt_def length_bufT nth_bufT)
lemma byteOpt_bufT_1: "byteOpt (bufT z t n) (Suc 0) = (if Suc 0 < n then Some (unat (tlk t num.One)) else None)"
  by (simp add: byteOpt_def length_bufT nth_bufT)

lemma copyWithin_numeral: "copyWithin b d s (numeral k) = copyWithin (b[d := of_nat (byteAt b s)]) (d + 1) (s + 1) (pred_numeral k)"
  by (simp only: numeral_eq_Suc[of k] copyWithin.simps)
lemma copyBytes_numeral: "copyBytes b d src s (numeral k) = copyBytes (b[d := of_nat (byteAt src s)]) (d + 1) src (s + 1) (pred_numeral k)"
  by (simp only: numeral_eq_Suc[of k] copyBytes.simps)
lemma copyBytes_1: "copyBytes b d src s (Suc 0) = (b[d := of_nat (byteAt src s)])"
  by simp
lemma leValue_numeral: "leValue b off (numeral k) = byteAt b off + 256 * leValue b (off + 1) (pred_numeral k)"
  by (simp only: numeral_eq_Suc[of k] leValue.simps)
lemma writeLE_numeral: "writeLE b off v (numeral k) = writeLE (b[off := of_nat (v mod 256)]) (off + 1) (v div 256) (pred_numeral k)"
  by (simp only: numeral_eq_Suc[of k] writeLE.simps)


lemma bind_cong0: "bind m f = bind m f" by (rule refl)
lemma readB_cong0: "readB f = readB f" by (rule refl)
lemma writeB_cong0: "writeB f = writeB f" by (rule refl)
lemma modify_cong0: "modify f = modify f" by (rule refl)
lemma gets_cong0: "gets f = gets f" by (rule refl)
lemma bind_res_cong: "r = r' \<Longrightarrow> bind_res r f = bind_res r' f" by simp
lemma bindR_cong: "r = r' \<Longrightarrow> bindR r f = bindR r' f" by simp
lemma mapR_cong: "r = r' \<Longrightarrow> mapR f r = mapR f r'" by simp
lemma Let_cong0: "a = b \<Longrightarrow> Let a f = Let b f" by simp

definition FZ :: "trie \<Rightarrow> trie" where "FZ t = t"
definition ndL :: "trie \<Rightarrow> 8 word \<Rightarrow> trie \<Rightarrow> trie" where "ndL l v r = Nd l v r"
definition ndR :: "trie \<Rightarrow> 8 word \<Rightarrow> trie \<Rightarrow> trie" where "ndR l v r = Nd l v r"

lemma FZ_rules:
  "tupd num.One x (FZ Lf) = FZ (Nd Lf x Lf)"
  "tupd (num.Bit0 n) x (FZ Lf) = ndL (tupd n x (FZ Lf)) 0 Lf"
  "tupd (num.Bit1 n) x (FZ Lf) = ndR Lf 0 (tupd n x (FZ Lf))"
  "tupd num.One x (FZ (Nd l v r)) = FZ (Nd l x r)"
  "tupd (num.Bit0 n) x (FZ (Nd l v r)) = ndL (tupd n x (FZ l)) v r"
  "tupd (num.Bit1 n) x (FZ (Nd l v r)) = ndR l v (tupd n x (FZ r))"
  "ndL (FZ l) v r = FZ (Nd l v r)"
  "ndR l v (FZ r) = FZ (Nd l v r)"
  "tlk (FZ Lf) k = 0"
  "tlk (FZ (Nd l v r)) num.One = v"
  "tlk (FZ (Nd l v r)) (num.Bit0 n) = tlk (FZ l) n"
  "tlk (FZ (Nd l v r)) (num.Bit1 n) = tlk (FZ r) n"
  by (simp_all add: FZ_def ndL_def ndR_def)

lemma replicate_FZ: "replicate n 0 = bufT 0 (FZ Lf) n"
  by (simp add: FZ_def replicate_bufT)

lemma SucSuc0: "Suc (Suc 0) = 2" by simp

lemma FZ_cong0: "FZ t = FZ t" by (rule refl)
lemma tupd_cong1: "x = x' \<Longrightarrow> t = t' \<Longrightarrow> tupd k x t = tupd k x' t'" by simp
lemma ndL_cong1: "l = l' \<Longrightarrow> ndL l v r = ndL l' v r" by simp
lemma ndR_cong1: "r = r' \<Longrightarrow> ndR l v r = ndR l v r'" by simp
lemma tlk_cong1: "t = t' \<Longrightarrow> tlk t k = tlk t' k" by simp
lemma bufT_cong1: "z = z' \<Longrightarrow> t = t' \<Longrightarrow> bufT z t n = bufT z' t' n" by simp

text \<open>The congruence rules and the unfolding rules of an evaluation.\<close>

lemmas eval_congs = bind_cong0 readB_cong0 writeB_cong0 modify_cong0 gets_cong0 bind_res_cong
  bindR_cong mapR_cong Let_cong0 FZ_cong0 tupd_cong1 ndL_cong1 ndR_cong1 tlk_cong1 bufT_cong1

lemmas eval_defs = ret_def throw_def bind_def readB_def writeB_def gets_def modify_def mapR_def bindR_def
  forUp.simps forDown.simps const_defs TypeSizes_def byteOf_def readUint32_def writeUint32_def
  getNodeType_def getNodeGeneration_def setNodeGeneration_def incrementGeneration_def getNodeKeyCount_def
  setNodeKeyCount_def getNodeSize_def setNodeSize_def incrementNodeSize_def getNodeHash_def setNodeHash_def
  getNodeKvOffset_def setNodeKvOffset_def getNodeChildOffset_def setNodeChildOffset_def hasChildren_def
  initNode_def shiftNodeEntriesRight_def Lite3_def ensureSpace_def initObject_def initArray_def
  checkInitialized_def Let_def
  writeKey_def skipKey_def readKey_def getValueSize_def scanKeys.simps keyAt_def splitRoot_def splitChild_def
  splitNode_def findOrInsertLoop.simps findOrInsertKey_def setImpl_def setNull_def setBool_def
  setNestedImpl_def setObject_def setArray_def getKeyData_def getKeyTagSize_def djb2Hash_def djb2Step_def
  toInt32_def toUint32_def utf8_of_code_point_def readVarUint_def writeVarUint_def alignOffset_def
  findKeyLoop.simps findKey_def size_node_def
  length_bufT replicate_FZ FZ_rules SucSuc0 upd_bufT_0 upd_bufT_num upd_bufT_1 byteAt_bufT_0 byteAt_bufT_num byteAt_bufT_1
  byteOpt_bufT_0 byteOpt_bufT_num byteOpt_bufT_1 copyWithin_numeral copyBytes_numeral copyBytes_1
  leValue_numeral writeLE_numeral


lemma byteAt_Nil: "byteAt [] i = 0" by (simp add: byteAt_def)
lemma byteAt_Cons_0: "byteAt (x # xs) 0 = unat x" by (simp add: byteAt_def)
lemma byteAt_Cons_1: "byteAt (x # xs) (Suc 0) = byteAt xs 0" by (simp add: byteAt_def)
lemma byteAt_Cons_numeral: "byteAt (x # xs) (numeral k) = byteAt xs (pred_numeral k)"
  by (simp add: byteAt_def numeral_eq_Suc[of k])

lemma take_drop_step: "take (numeral m) (drop off b) = (if length b \<le> off then [] else of_nat (byteAt b off) # take (pred_numeral m) (drop (off + 1) b))"
proof (cases "length b \<le> off")
  case True then show ?thesis by simp
next
  case False
  then have lt: "off < length b" by simp
  have "drop off b = b ! off # drop (Suc off) b" using lt by (rule Cons_nth_drop_Suc [symmetric])
  then show ?thesis using lt by (simp add: byteAt_def numeral_eq_Suc[of m])
qed

lemma take_drop_1: "take (Suc 0) (drop off b) = (if length b \<le> off then [] else [of_nat (byteAt b off)])"
proof (cases "length b \<le> off")
  case True then show ?thesis by simp
next
  case False
  then have lt: "off < length b" by simp
  have "drop off b = b ! off # drop (Suc off) b" using lt by (rule Cons_nth_drop_Suc [symmetric])
  then show ?thesis using lt by (simp add: byteAt_def)
qed

lemmas eval_iter = leftmost.simps iterLoop.simps iterAdvance_def iterYield_def iterRun_def iterLocate_def iterNext_def
  iterDrain.simps iterate_def keys_def has_def List.map_filter_def take_drop_step take_drop_1
  byteAt_Nil byteAt_Cons_0 byteAt_Cons_1 byteAt_Cons_numeral
  utf8_decode.simps utf16_of_code_point_def decodeString_def
  readCall.simps readValue_def readObject_def readArray_def get_def getAt_def
  propertyKey_def assignProperty_def



section \<open>The key hash\<close>

text \<open>Written from the specification: DJB2 over the UTF-8 bytes of the key, without the
  terminator: \<open>h\<close> starts at 5381 and becomes \<open>(h * 33 + b) mod 2^32\<close> for each byte.\<close>

definition djb2_spec :: "js_string \<Rightarrow> nat" where
  "djb2_spec key = foldl (\<lambda>h b. (h * 33 + unat b) mod 2 ^ 32) 5381 (encodeString key)"

text \<open>
  Claim C4. The hash used to store and look up a key is claimed to be DJB2 over the UTF-8
  bytes of the key, also for keys with non-ASCII characters. \<open>djb2Hash\<close> hashes the low
  byte of each UTF-16 code unit instead. For the key made of the one character U+00E9 the
  code computes 177806; the UTF-8 bytes C3 A9 give 5866513.
\<close>

theorem C4_hash_of_non_ascii_key:
  "djb2Hash [233] = 177806 \<and> djb2_spec [233] = 5866513 \<and> djb2Hash [233] \<noteq> djb2_spec [233]"
  by (simp add: djb2Hash_def djb2Step_def toInt32_def toUint32_def djb2_spec_def
        DJB2_HASH_SEED_def utf8_of_code_point_def)


section \<open>Runs that settle the claims\<close>

text \<open>\<^verbatim>\<open>for (const k of ks) lite3.setNull(k)\<close>\<close>

fun setNullAll :: "js_string list \<Rightarrow> unit m" where
  "setNullAll [] = ret ()"
| "setNullAll (k # ks) = bind (setNull k 0) (\<lambda>_. setNullAll ks)"

text \<open>The keys \<^verbatim>\<open>"a"\<close> to \<^verbatim>\<open>"k"\<close>; their hashes are \<open>177573 + 97\<close> to \<open>177573 + 107\<close>,
  in the order of the letters.\<close>

definition keys_a_to_g :: "js_string list" where
  "keys_a_to_g = [[97], [98], [99], [100], [101], [102], [103]]"

definition keys_a_to_k :: "js_string list" where
  "keys_a_to_k = [[97], [98], [99], [100], [101], [102], [103], [104], [105], [106], [107]]"

subsection \<open>C1 and C2: overwriting the median key of a full node\<close>

text \<open>
  \<^verbatim>\<open>new Lite3(); initObject(); setNull("a") ... setNull("k"); setBool("h", true)\<close>.
  After the eleven insertions the root holds \<^verbatim>\<open>"d"\<close>, its left child \<^verbatim>\<open>"a" "b" "c"\<close> and
  its right child the seven keys \<^verbatim>\<open>"e"\<close> to \<^verbatim>\<open>"k"\<close> with median \<^verbatim>\<open>"h"\<close>. The twelfth call
  splits the right child on its way down: \<^verbatim>\<open>"h"\<close> moves up into the root, and
  \<^verbatim>\<open>_findOrInsertKey\<close> goes on in the left half because \<^verbatim>\<open>keyData.hash > separatorHash\<close>
  is false for the equal hash. It does not find \<^verbatim>\<open>"h"\<close> there and inserts it again.
\<close>

definition set_then_get_run :: "(error + js_value) option m" where
  "set_then_get_run =
     bind initObject (\<lambda>_.
     bind (setNullAll keys_a_to_k) (\<lambda>_.
     bind (setBool [104] True 0) (\<lambda>_.
     gets (\<lambda>s. get s [104] 0))))"

text \<open>
  Claim C1. Writing a primitive value with its typed setter and then calling \<^verbatim>\<open>get\<close> is
  claimed to return that value. In the run above \<^verbatim>\<open>setBool("h", true)\<close> is followed by
  \<^verbatim>\<open>get("h")\<close>, which returns \<^verbatim>\<open>null\<close>, the value written before.
\<close>

theorem C1_get_after_setBool_returns_null:
  "fst (set_then_get_run (Lite3 1024)) = Inr (Some (Inr JNull))"
  unfolding set_then_get_run_def keys_a_to_k_def
  by (simp add: eval_defs eval_iter cong: eval_congs)

definition overwrite_median_run ::
  "(((error + nat) \<times> (error + bool) \<times> (error + js_string list) option)
    \<times> ((error + nat) \<times> (error + js_value) option \<times> (error + js_string list) option)) m" where
  "overwrite_median_run =
     bind initObject (\<lambda>_.
     bind (setNullAll keys_a_to_k) (\<lambda>_.
     bind (gets (\<lambda>s. (size_node s 0, has s [104] 0, keys s 0))) (\<lambda>before.
     bind (setBool [104] True 0) (\<lambda>_.
     bind (gets (\<lambda>s. (size_node s 0, get s [104] 0, keys s 0))) (\<lambda>after.
     ret (before, after))))))"

text \<open>
  Claim C2. A set of a key that is already present is claimed to leave the number of
  entries as it is and to make \<^verbatim>\<open>get\<close> return the new value, also when the node that
  holds the key is split on the way. In the run the key \<^verbatim>\<open>"h"\<close> is present (size 11,
  \<^verbatim>\<open>has("h")\<close> true, eleven keys); after \<^verbatim>\<open>setBool("h", true)\<close> the size is 12, the
  enumeration yields \<^verbatim>\<open>"h"\<close> twice and \<^verbatim>\<open>get("h")\<close> is still \<^verbatim>\<open>null\<close>.
\<close>

theorem C2_overwrite_of_median_key_adds_an_entry:
  "fst (overwrite_median_run (Lite3 1024)) =
     Inr ((Inr 11, Inr True,
           Some (Inr [[97], [98], [99], [100], [101], [102], [103], [104], [105], [106], [107]])),
          (Inr 12, Some (Inr JNull),
           Some (Inr [[97], [98], [99], [100], [101], [102], [103], [104], [104], [105], [106],
                      [107]])))"
  unfolding overwrite_median_run_def keys_a_to_k_def
  by (simp add: eval_defs eval_iter cong: eval_congs)

subsection \<open>C3: the size of the root and the entries of a nested object\<close>

text \<open>\<^verbatim>\<open>initObject(); o = setObject("a"); setNull("b", o)\<close>, then the offset \<open>o\<close>,
  \<^verbatim>\<open>size(0)\<close>, \<^verbatim>\<open>size(o)\<close> and the number of entries that \<^verbatim>\<open>_iterate(0)\<close> and
  \<^verbatim>\<open>_iterate(o)\<close> yield.\<close>

definition nested_size_run ::
  "(nat \<times> (error + nat) \<times> (error + nat) \<times> (error + nat) option \<times> (error + nat) option) m" where
  "nested_size_run =
     bind initObject (\<lambda>_.
     bind (setObject [97] 0) (\<lambda>objOffset.
     bind (setNull [98] objOffset) (\<lambda>_.
     gets (\<lambda>s. (objOffset, size_node s 0, size_node s objOffset,
                 map_option (mapR length) (iterate (buffer s) 0),
                 map_option (mapR length) (iterate (buffer s) objOffset))))))"

text \<open>
  Claim C3. \<^verbatim>\<open>size(0)\<close> is claimed to equal the number of entries of the root, also
  when nested objects are filled through the offsets returned for them. \<^verbatim>\<open>_setImpl\<close>
  counts every new entry on the node at offset 0, whatever node the entry goes to: after
  the run the root has one entry and \<^verbatim>\<open>size(0)\<close> is 2, the nested object has one entry
  and its size is 0.
\<close>

theorem C3_root_size_counts_nested_entry:
  "fst (nested_size_run (Lite3 1024)) = Inr (100, Inr 2, Inr 0, Some (Inr 1), Some (Inr 1))"
  unfolding nested_size_run_def
  by (simp add: eval_defs eval_iter cong: eval_congs)

subsection \<open>C7: the root split\<close>

definition rootFields :: "lite3 \<Rightarrow> (error + nat) \<times> (error + nat) \<times> (error + nat)" where
  "rootFields s =
     (getNodeType (buffer s) 0, getNodeSize (buffer s) 0, getNodeGeneration (buffer s) 0)"

text \<open>\<^verbatim>\<open>initObject(); setNull("a") ... setNull("g")\<close> and the start of an eighth
  \<^verbatim>\<open>setNull\<close> up to the split of the full root: type, size and generation of the root
  immediately before and after \<^verbatim>\<open>_splitNode(0, 0, null, 0)\<close>.\<close>

definition root_split_run ::
  "(((error + nat) \<times> (error + nat) \<times> (error + nat))
    \<times> ((error + nat) \<times> (error + nat) \<times> (error + nat))) m" where
  "root_split_run =
     bind initObject (\<lambda>_.
     bind (setNullAll keys_a_to_g) (\<lambda>_.
     bind (ensureSpace (4 + NODE_SIZE * 2)) (\<lambda>_.
     bind (writeB (\<lambda>b. incrementGeneration b 0)) (\<lambda>_.
     bind (gets rootFields) (\<lambda>before.
     bind (splitNode 0 0 None 0) (\<lambda>_.
     bind (gets rootFields) (\<lambda>after.
     ret (before, after))))))))"

text \<open>
  Claim C7. Across a root split the root is claimed to keep its type, its size counter
  and its generation. \<^verbatim>\<open>_splitNode\<close> saves and restores the size only; \<^verbatim>\<open>initNode\<close>
  writes generation 0. In the run the root is an object of size 7 and generation 8
  before the split, and an object of size 7 and generation 0 after it.
\<close>

theorem C7_root_split_resets_generation:
  "fst (root_split_run (Lite3 1024)) = Inr ((Inr 6, Inr 7, Inr 8), (Inr 6, Inr 7, Inr 0))"
  unfolding root_split_run_def keys_a_to_g_def
  by (simp add: eval_defs eval_iter rootFields_def cong: eval_congs)



section \<open>Reading and writing 32-bit words\<close>

text \<open>\<open>r32\<close> is the value \<^verbatim>\<open>getUint32\<close> returns and \<open>w32\<close> the array \<^verbatim>\<open>setUint32\<close> leaves,
  when the four bytes are inside the array.\<close>

definition r32 :: "bytes \<Rightarrow> nat \<Rightarrow> nat" where
  "r32 b off = byteAt b off + 256 * byteAt b (off + 1) + 65536 * byteAt b (off + 2)
               + 16777216 * byteAt b (off + 3)"

definition w32 :: "bytes \<Rightarrow> nat \<Rightarrow> nat \<Rightarrow> bytes" where
  "w32 b off v = b[off := byteOf (v mod 2 ^ 32) 0, off + 1 := byteOf (v mod 2 ^ 32) 1,
                   off + 2 := byteOf (v mod 2 ^ 32) 2, off + 3 := byteOf (v mod 2 ^ 32) 3]"

lemma readUint32_r32: "readUint32 b off = (if off + 4 \<le> length b then Inr (r32 b off) else Inl RangeError)"
  by (simp add: readUint32_def r32_def)

lemma writeUint32_w32: "writeUint32 b off v = (if off + 4 \<le> length b then Inr (w32 b off v) else Inl RangeError)"
  by (simp add: writeUint32_def w32_def)

lemma length_w32 [simp]: "length (w32 b off v) = length b"
  by (simp add: w32_def)

lemma nth_w32_other: "i < off \<or> off + 4 \<le> i \<Longrightarrow> w32 b off v ! i = b ! i"
  by (auto simp: w32_def)

lemma byteAt_w32_other: "i < off \<or> off + 4 \<le> i \<Longrightarrow> byteAt (w32 b off v) i = byteAt b i"
  by (simp add: byteAt_def nth_w32_other)

lemma r32_w32_other: "off' + 4 \<le> off \<or> off + 4 \<le> off' \<Longrightarrow> r32 (w32 b off v) off' = r32 b off'"
  by (auto simp: r32_def byteAt_w32_other)

lemma unat_byteOf: "unat (byteOf v i) = (v div 256 ^ i) mod 256"
  by (simp add: byteOf_def unat_of_nat)

lemma le32_decompose:
  fixes v :: nat
  assumes "v < 2 ^ 32"
  shows "v mod 256 + 256 * (v div 256 mod 256) + 65536 * (v div 65536 mod 256)
         + 16777216 * (v div 16777216 mod 256) = v"
proof -
  have 1: "v mod 65536 = 256 * (v div 256 mod 256) + v mod 256"
    using mod_mult2_eq [of v 256 256] by simp
  have 2: "v mod 16777216 = 65536 * (v div 65536 mod 256) + v mod 65536"
    using mod_mult2_eq [of v 65536 256] by simp
  have 3: "v mod 4294967296 = 16777216 * (v div 16777216 mod 256) + v mod 16777216"
    using mod_mult2_eq [of v 16777216 256] by simp
  have 4: "v mod 4294967296 = v" using assms by simp
  show ?thesis using 1 2 3 4 by linarith
qed

lemma r32_w32_same: "off + 4 \<le> length b \<Longrightarrow> r32 (w32 b off v) off = v mod 2 ^ 32"
proof -
  assume len: "off + 4 \<le> length b"
  let ?v = "v mod 2 ^ 32"
  have lt: "?v < 2 ^ 32" by simp
  have "r32 (w32 b off v) off = ?v mod 256 + 256 * (?v div 256 mod 256)
          + 65536 * (?v div 65536 mod 256) + 16777216 * (?v div 16777216 mod 256)"
    using len by (simp add: r32_def w32_def byteAt_def unat_byteOf)
  also have "\<dots> = ?v" using lt by (rule le32_decompose)
  finally show ?thesis .
qed


section \<open>Initialisation\<close>

text \<open>The bytes of an array after \<^verbatim>\<open>initNode(buffer, off, ty)\<close>.\<close>

definition initBytes :: "bytes \<Rightarrow> nat \<Rightarrow> nat \<Rightarrow> bytes" where
  "initBytes b off ty =
     w32 (w32 (w32 (w32 (w32 (w32 (w32 (w32 (w32 (w32 b off (ty mod 256)) (off + 32) 0)
       (off + 64) 0) (off + 68) 0) (off + 72) 0) (off + 76) 0) (off + 80) 0) (off + 84) 0)
       (off + 88) 0) (off + 92) 0"

lemma initNode_ok:
  assumes "off + 96 \<le> length (buffer s)"
  shows "initNode off ty s = (Inr (), s\<lparr>buffer := initBytes (buffer s) off ty\<rparr>)"
  using assms
  by (simp add: initNode_def initBytes_def forUp.simps bind_def writeB_def ret_def
        writeUint32_w32 setNodeChildOffset_def SIZE_KC_OFFSET_def add.commute)

lemma length_initBytes [simp]: "length (initBytes b off ty) = length b"
  by (simp add: initBytes_def)

lemma initBytes_reads:
  assumes "off + 96 \<le> length b"
  shows "r32 (initBytes b off ty) off = ty mod 256"
    and "r32 (initBytes b off ty) (off + 32) = 0"
    and "r32 (initBytes b off ty) (off + 64) = 0"
  using assms by (simp_all add: initBytes_def r32_w32_other r32_w32_same)

lemma ensureSpace_length:
  "ensureSpace n s = (r, s') \<Longrightarrow> r = Inr () \<and> buflen s' = buflen s \<and> initialized s' = initialized s
     \<and> buflen s + n \<le> length (buffer s')"
  by (auto simp: ensureSpace_def modify_def Let_def split: if_splits)

text \<open>The document is empty: the used length is one node header and the root has no
  entry.\<close>

definition emptyRoot :: "lite3 \<Rightarrow> bool" where
  "emptyRoot s \<longleftrightarrow> buflen s = 96 \<and> initialized s \<and> size_node s 0 = Inr 0
     \<and> (\<forall>k. get s k 0 = Some (Inr JUndefined)) \<and> (\<forall>k. has s k 0 = Inr False)
     \<and> iterate (buffer s) 0 = Some (Inr [])"

lemma emptyRoot_init:
  assumes len: "96 \<le> length b" and ty: "ty = T_OBJECT \<or> ty = T_ARRAY"
  shows "emptyRoot \<lparr>buffer = initBytes b 0 ty, buflen = 96, initialized = True\<rparr>"
proof -
  let ?b = "initBytes b 0 ty"
  have r0: "r32 ?b 0 = ty mod 256" and r32': "r32 ?b 32 = 0" and r64: "r32 ?b 64 = 0"
    using initBytes_reads [of 0 b ty] len by simp_all
  have kc: "getNodeKeyCount ?b 0 = Inr 0"
    using len r32' by (simp add: getNodeKeyCount_def readUint32_r32 mapR_def SIZE_KC_OFFSET_def)
  have sz: "getNodeSize ?b 0 = Inr 0"
    using len r32' by (simp add: getNodeSize_def readUint32_r32 mapR_def SIZE_KC_OFFSET_def)
  have hc: "hasChildren ?b 0 = Inr False"
    using len r64 by (simp add: hasChildren_def getNodeChildOffset_def readUint32_r32 mapR_def)
  have tp: "getNodeType ?b 0 = Inr ty"
    using len r0 ty by (auto simp: getNodeType_def readUint32_r32 mapR_def T_OBJECT_def T_ARRAY_def)
  have fk: "findKey ?b 0 h = Inr None" for h
    unfolding findKey_def
    by (subst findKeyLoop.simps) (simp add: kc hc scanKeys.simps keyAt_def bindR_def)
  have lm: "leftmost ?b [(0, 0)] = Some (Inr [(0, 0)])"
    by (subst leftmost.simps) (simp add: hc)
  have il: "iterLoop ?b [(0, 0)] = Inr None"
    by (simp add: iterLoop.simps kc bindR_def)
  have it: "iterate ?b 0 = Some (Inr [])"
    unfolding iterate_def
    by (subst iterDrain.simps) (simp add: iterNext_def iterLocate_def tp lm iterRun_def il mapR_def)
  show ?thesis
    by (simp add: emptyRoot_def size_node_def get_def has_def sz fk it bindR_def mapR_def)
qed

text \<open>
  Claim C10. \<^verbatim>\<open>initObject()\<close> and \<^verbatim>\<open>initArray()\<close> on any handle, whatever it holds, do
  not throw and leave a used length of exactly 96 bytes and an empty root: \<^verbatim>\<open>size(0)\<close> is
  0, every \<^verbatim>\<open>get\<close> returns \<^verbatim>\<open>undefined\<close>, every \<^verbatim>\<open>has\<close> is false and the enumeration of
  the root yields nothing. All earlier entries, payloads and nested nodes lie beyond the
  used length.
\<close>

theorem C10_reinit:
  "fst (initObject s) = Inr () \<and> emptyRoot (snd (initObject s))
   \<and> fst (initArray s) = Inr () \<and> emptyRoot (snd (initArray s))"
proof -
  obtain r s1 where e: "ensureSpace NODE_SIZE s = (r, s1)" by (cases "ensureSpace NODE_SIZE s")
  from ensureSpace_length [OF e] have r: "r = Inr ()" and len: "96 \<le> length (buffer s1)"
    by (simp_all add: NODE_SIZE_def)
  have len0: "0 + 96 \<le> length (buffer s1)" using len by simp
  have o: "initObject s = (Inr (), \<lparr>buffer = initBytes (buffer s1) 0 T_OBJECT, buflen = 96, initialized = True\<rparr>)"
    using e r initNode_ok [OF len0, of T_OBJECT]
    by (simp add: initObject_def bind_def modify_def NODE_SIZE_def)
  have a: "initArray s = (Inr (), \<lparr>buffer = initBytes (buffer s1) 0 T_ARRAY, buflen = 96, initialized = True\<rparr>)"
    using e r initNode_ok [OF len0, of T_ARRAY]
    by (simp add: initArray_def bind_def modify_def NODE_SIZE_def)
  show ?thesis using o a emptyRoot_init [OF len] by simp
qed



section \<open>C9: a descent of more than nine steps\<close>

subsection \<open>The walks without their bound\<close>

text \<open>The descent of \<^verbatim>\<open>_findKey\<close> without its bound: the node reached after \<open>n\<close> steps
  down from \<open>node\<close> on the way to \<open>hash\<close>, \<open>None\<close> when the walk stops earlier (the hash
  is found or a leaf is reached).\<close>

fun descend :: "bytes \<Rightarrow> nat \<Rightarrow> nat \<Rightarrow> nat \<Rightarrow> error + nat option" where
  "descend b hash node 0 = Inr (Some node)"
| "descend b hash node (Suc n) =
     bindR (getNodeKeyCount b node) (\<lambda>keyCount.
     bindR (scanKeys b node hash keyCount 0) (\<lambda>i.
     bindR (keyAt b node hash keyCount i) (\<lambda>found.
     if found then Inr None
     else
       bindR (hasChildren b node) (\<lambda>hc.
       if hc then bindR (getNodeChildOffset b node i) (\<lambda>child. descend b hash child n)
       else Inr None))))"

text \<open>The descent of \<^verbatim>\<open>_findOrInsertKey\<close> without its bound, with the splits of the
  full nodes it comes to: the node reached after \<open>n\<close> steps down, \<open>None\<close> when the loop
  ends earlier (the hash is found, or a leaf is reached, where the loop inserts).\<close>

fun insertDescend :: "nat \<Rightarrow> nat \<Rightarrow> nat \<Rightarrow> nat option \<Rightarrow> nat \<Rightarrow> nat \<Rightarrow> nat option m" where
  "insertDescend rootOffset hash node parent parentIndex 0 = ret (Some node)"
| "insertDescend rootOffset hash node parent parentIndex (Suc n) =
     bind (readB (\<lambda>b. getNodeKeyCount b node)) (\<lambda>kc.
     bind (if kc = KEY_COUNT_MAX
           then bind (splitNode rootOffset node parent parentIndex) (\<lambda>_.
                  case parent of
                    None \<Rightarrow> ret rootOffset
                  | Some p \<Rightarrow>
                      bind (readB (\<lambda>b. getNodeHash b p parentIndex)) (\<lambda>separatorHash.
                      if hash > separatorHash
                      then readB (\<lambda>b. getNodeChildOffset b p (parentIndex + 1))
                      else ret node))
           else ret node) (\<lambda>node.
     bind (readB (\<lambda>b. getNodeKeyCount b node)) (\<lambda>keyCount.
     bind (readB (\<lambda>b. scanKeys b node hash keyCount 0)) (\<lambda>i.
     bind (readB (\<lambda>b. keyAt b node hash keyCount i)) (\<lambda>found.
     if found then ret None
     else
       bind (readB (\<lambda>b. hasChildren b node)) (\<lambda>hc.
       if hc
       then bind (readB (\<lambda>b. getNodeChildOffset b node i)) (\<lambda>child.
              insertDescend rootOffset hash child (Some node) i n)
       else ret None))))))"

declare insertDescend.simps [simp del]

text \<open>The four writing methods up to the \<open>n\<close>-th step down of their walk: what
  \<^verbatim>\<open>_setImpl\<close>, \<^verbatim>\<open>_setNestedImpl\<close>, \<^verbatim>\<open>_appendPrimitiveImpl\<close> and \<^verbatim>\<open>_appendNestedImpl\<close>
  do before they call \<^verbatim>\<open>_findOrInsertKey\<close>, then the descent.\<close>

definition setWalk :: "js_string \<Rightarrow> nat \<Rightarrow> nat \<Rightarrow> nat \<Rightarrow> nat option m" where
  "setWalk key offset dataSize n =
     (let keyData = getKeyData key;
          keyTagSize = getKeyTagSize (kd_size keyData);
          entrySize = keyTagSize + kd_size keyData + VAL_SIZE + dataSize in
      bind (ensureSpace (entrySize + NODE_SIZE * 2)) (\<lambda>_.
      bind (writeB (\<lambda>b. incrementGeneration b 0)) (\<lambda>_.
      insertDescend offset (kd_hash keyData) offset None 0 n)))"

definition setNestedWalk :: "js_string \<Rightarrow> nat \<Rightarrow> nat \<Rightarrow> nat option m" where
  "setNestedWalk key offset n =
     (let keyData = getKeyData key;
          keyTagSize = getKeyTagSize (kd_size keyData) in
      bind (gets buflen) (\<lambda>buflen0.
      let unalignedValOffset = buflen0 + keyTagSize + kd_size keyData;
          alignedValOffset = alignOffset unalignedValOffset NODE_ALIGNMENT;
          alignmentPadding = alignedValOffset - unalignedValOffset;
          entrySize = keyTagSize + kd_size keyData + alignmentPadding + NODE_SIZE in
      bind (ensureSpace (entrySize + NODE_SIZE * 2)) (\<lambda>_.
      bind (writeB (\<lambda>b. incrementGeneration b 0)) (\<lambda>_.
      insertDescend offset (kd_hash keyData) offset None 0 n))))"

definition appendWalk :: "nat \<Rightarrow> nat \<Rightarrow> nat \<Rightarrow> nat \<Rightarrow> nat option m" where
  "appendWalk arrayOffset idx dataSize n =
     (let entrySize = VAL_SIZE + dataSize in
      bind (ensureSpace (entrySize + NODE_SIZE * 2)) (\<lambda>_.
      bind (writeB (\<lambda>b. incrementGeneration b 0)) (\<lambda>_.
      insertDescend arrayOffset idx arrayOffset None 0 n)))"

definition appendNestedWalk :: "nat \<Rightarrow> nat \<Rightarrow> nat \<Rightarrow> nat option m" where
  "appendNestedWalk arrayOffset idx n =
     bind (ensureSpace (NODE_SIZE * 3)) (\<lambda>_.
     bind (writeB (\<lambda>b. incrementGeneration b 0)) (\<lambda>_.
     insertDescend arrayOffset idx arrayOffset None 0 n))"

text \<open>
  The calls made in the course of a read: \<open>reaches b call call'\<close> when the evaluation of
  \<open>call\<close> on the buffer \<open>b\<close> comes to \<open>call'\<close>, every call that is finished before having
  returned a value. A loop of \<^verbatim>\<open>_readArray\<close> that is reached with \<open>i < size\<close> makes the
  walk \<^verbatim>\<open>_findKey(nodeOffset, i)\<close>.
\<close>

inductive reaches :: "bytes \<Rightarrow> read_call \<Rightarrow> read_call \<Rightarrow> bool" for b :: bytes where
  reaches_refl: "reaches b call call"
| reaches_object:
    "byteOpt b valOffset = Some T_OBJECT \<Longrightarrow>
     reaches b (ReadObject (IterStart valOffset) []) call \<Longrightarrow>
     reaches b (ReadValue valOffset) call"
| reaches_array:
    "byteOpt b valOffset = Some T_ARRAY \<Longrightarrow> getNodeSize b valOffset = Inr sz \<Longrightarrow>
     reaches b (ReadArray valOffset 0 sz []) call \<Longrightarrow>
     reaches b (ReadValue valOffset) call"
| reaches_property:
    "iterNext b it = Some (Inr (Some entry, it')) \<Longrightarrow>
     reaches b (ReadValue (e_valueOffset entry)) call \<Longrightarrow>
     reaches b (ReadObject it result) call"
| reaches_next_property:
    "iterNext b it = Some (Inr (Some entry, it')) \<Longrightarrow>
     readCall b (ReadValue (e_valueOffset entry)) = Some (Inr v) \<Longrightarrow>
     reaches b (ReadObject it' (assignProperty result (e_key entry) v)) call \<Longrightarrow>
     reaches b (ReadObject it result) call"
| reaches_absent:
    "i < sz \<Longrightarrow> findKey b nodeOff i = Inr None \<Longrightarrow>
     reaches b (ReadArray nodeOff (i + 1) sz result) call \<Longrightarrow>
     reaches b (ReadArray nodeOff i sz result) call"
| reaches_element:
    "i < sz \<Longrightarrow> findKey b nodeOff i = Inr (Some (node, idx)) \<Longrightarrow>
     getNodeKvOffset b node idx = Inr kvOffset \<Longrightarrow>
     reaches b (ReadValue kvOffset) call \<Longrightarrow>
     reaches b (ReadArray nodeOff i sz result) call"
| reaches_next_element:
    "i < sz \<Longrightarrow> findKey b nodeOff i = Inr (Some (node, idx)) \<Longrightarrow>
     getNodeKvOffset b node idx = Inr kvOffset \<Longrightarrow>
     readCall b (ReadValue kvOffset) = Some (Inr v) \<Longrightarrow>
     reaches b (ReadArray nodeOff (i + 1) sz (result @ [v])) call \<Longrightarrow>
     reaches b (ReadArray nodeOff i sz result) call"

subsection \<open>A tenth step down ends the call with \<^verbatim>\<open>BAD_MESSAGE\<close>\<close>

lemma descend_overflow:
  "descend b hash node (Suc n) = Inr (Some x) \<Longrightarrow> 9 \<le> n + w \<Longrightarrow>
   findKeyLoop b hash node w = Inl EBADMSG"
proof (induction n arbitrary: node w)
  case 0
  then show ?case
    by (subst findKeyLoop.simps)
       (auto simp: bindR_def TREE_HEIGHT_MAX_def split: sum.splits if_splits)
next
  case (Suc n)
  show ?case
  proof (cases "w + 1 > TREE_HEIGHT_MAX")
    case True
    with Suc.prems show ?thesis
      by (subst findKeyLoop.simps) (auto simp: bindR_def split: sum.splits if_splits)
  next
    case False
    have "\<And>child. descend b hash child (Suc n) = Inr (Some x) \<Longrightarrow>
            findKeyLoop b hash child (w + 1) = Inl EBADMSG"
      using Suc.IH Suc.prems(2) by simp
    with False Suc.prems(1) show ?thesis
      by (subst findKeyLoop.simps) (auto simp: bindR_def split: sum.splits if_splits)
  qed
qed

lemma findKey_overflow:
  assumes "descend b hash node 10 = Inr (Some x)"
  shows "findKey b node hash = Inl EBADMSG"
proof -
  have eq: "Suc 9 = (10::nat)" by simp
  have "descend b hash node (Suc 9) = Inr (Some x)" unfolding eq by (rule assms)
  then show ?thesis unfolding findKey_def by (rule descend_overflow) simp
qed

lemma bind_overflow:
  assumes "\<exists>y. fst (bind m f s) = Inr (Some y)"
    and "\<And>x s1. m s = (Inr x, s1) \<Longrightarrow> \<exists>y. fst (f x s1) = Inr (Some y) \<Longrightarrow>
           fst (g x s1) = Inl EBADMSG"
  shows "fst (bind m g s) = Inl EBADMSG"
proof (cases "m s")
  case (Pair r s1)
  show ?thesis
  proof (cases r)
    case (Inl e)
    with Pair assms(1) show ?thesis by (simp add: bind_def)
  next
    case (Inr x)
    with Pair assms(1) have "\<exists>y. fst (f x s1) = Inr (Some y)" by (simp add: bind_def)
    with assms(2) Pair Inr have "fst (g x s1) = Inl EBADMSG" by simp
    with Pair Inr show ?thesis by (simp add: bind_def)
  qed
qed

lemma bind_fails: "fst (m s) = Inl e \<Longrightarrow> fst (bind m f s) = Inl e"
  by (cases "m s") (simp add: bind_def)

lemma insertDescend_step:
  assumes "\<exists>x. fst (insertDescend rootOffset hash node parent parentIndex (Suc n) s) = Inr (Some x)"
    and "\<And>child node' i s'.
           \<exists>x. fst (insertDescend rootOffset hash child (Some node') i n s') = Inr (Some x) \<Longrightarrow>
           fst ((if w + 1 > TREE_HEIGHT_MAX then throw EBADMSG
                 else findOrInsertLoop rootOffset hash child (Some node') i (w + 1)) s')
             = Inl EBADMSG"
  shows "fst (findOrInsertLoop rootOffset hash node parent parentIndex w s) = Inl EBADMSG"
  using assms(1)
  apply (subst findOrInsertLoop.simps)
  apply (subst (asm) insertDescend.simps(2))
  apply (erule bind_overflow)
  apply (erule bind_overflow)
  apply (erule bind_overflow)
  apply (erule bind_overflow)
  apply (erule bind_overflow)
  subgoal for kc s1 node1 s2 keyCount s3 i s4 found s5
    apply (cases found)
     apply (simp add: ret_def)
    apply (simp only: if_False)
    apply (erule bind_overflow)
    subgoal for hc s6
      apply (cases hc)
       apply (simp only: if_True)
       apply (erule bind_overflow)
       apply (erule assms(2))
      apply (simp add: ret_def)
      done
    done
  done

lemma insertDescend_overflow:
  "\<exists>x. fst (insertDescend rootOffset hash node parent parentIndex (Suc n) s) = Inr (Some x) \<Longrightarrow>
   9 \<le> n + w \<Longrightarrow>
   fst (findOrInsertLoop rootOffset hash node parent parentIndex w s) = Inl EBADMSG"
proof (induction n arbitrary: node parent parentIndex w s)
  case 0
  show ?case
  proof (rule insertDescend_step [OF "0.prems"(1)])
    fix child node' i s'
    from "0.prems"(2) have "w + 1 > TREE_HEIGHT_MAX" by (simp add: TREE_HEIGHT_MAX_def)
    then show "fst ((if w + 1 > TREE_HEIGHT_MAX then throw EBADMSG
                 else findOrInsertLoop rootOffset hash child (Some node') i (w + 1)) s')
             = Inl EBADMSG"
      by (simp add: throw_def)
  qed
next
  case (Suc n)
  show ?case
  proof (rule insertDescend_step [OF Suc.prems(1)])
    fix child node' i s'
    assume a: "\<exists>x. fst (insertDescend rootOffset hash child (Some node') i (Suc n) s') = Inr (Some x)"
    have "9 \<le> n + (w + 1)" using Suc.prems(2) by simp
    from Suc.IH [OF a this]
    show "fst ((if w + 1 > TREE_HEIGHT_MAX then throw EBADMSG
                 else findOrInsertLoop rootOffset hash child (Some node') i (w + 1)) s')
             = Inl EBADMSG"
      by (simp add: throw_def)
  qed
qed

lemma findOrInsertKey_overflow:
  assumes "\<exists>x. fst (insertDescend rootOffset (kd_hash keyData) rootOffset None 0 10 s) = Inr (Some x)"
  shows "fst (bind (findOrInsertKey rootOffset keyData) f s) = Inl EBADMSG"
proof -
  have eq: "Suc 9 = (10::nat)" by simp
  have "\<exists>x. fst (insertDescend rootOffset (kd_hash keyData) rootOffset None 0 (Suc 9) s) = Inr (Some x)"
    unfolding eq by (rule assms)
  then have "fst (findOrInsertLoop rootOffset (kd_hash keyData) rootOffset None 0 0 s) = Inl EBADMSG"
    by (rule insertDescend_overflow) simp
  then show ?thesis unfolding findOrInsertKey_def by (rule bind_fails)
qed

lemma setImpl_overflow:
  assumes "fst (setWalk key offset dataSize 10 s) = Inr (Some node)"
  shows "fst (setImpl key offset type dataSize writeData s) = Inl EBADMSG"
proof -
  from assms have "\<exists>y. fst (setWalk key offset dataSize 10 s) = Inr (Some y)" by blast
  then show ?thesis
    unfolding setWalk_def setImpl_def Let_def
    apply (erule_tac bind_overflow)
    apply (erule bind_overflow)
    apply (erule findOrInsertKey_overflow)
    done
qed

lemma setNestedImpl_overflow:
  assumes "fst (setNestedWalk key offset 10 s) = Inr (Some node)"
  shows "fst (setNestedImpl key offset type s) = Inl EBADMSG"
proof -
  from assms have "\<exists>y. fst (setNestedWalk key offset 10 s) = Inr (Some y)" by blast
  then show ?thesis
    unfolding setNestedWalk_def setNestedImpl_def Let_def
    apply (erule_tac bind_overflow)
    apply (erule bind_overflow)
    apply (erule bind_overflow)
    apply (erule findOrInsertKey_overflow)
    done
qed

lemma appendPrimitiveImpl_overflow:
  assumes "fst (appendWalk arrayOffset idx dataSize 10 s) = Inr (Some node)"
  shows "fst (appendPrimitiveImpl arrayOffset idx type dataSize writeData s) = Inl EBADMSG"
proof -
  from assms have "\<exists>y. fst (appendWalk arrayOffset idx dataSize 10 s) = Inr (Some y)" by blast
  then show ?thesis
    unfolding appendWalk_def appendPrimitiveImpl_def Let_def
    apply (erule_tac bind_overflow)
    apply (erule bind_overflow)
    apply (rule findOrInsertKey_overflow)
    apply simp
    done
qed

lemma appendNestedImpl_overflow:
  assumes "fst (appendNestedWalk arrayOffset idx 10 s) = Inr (Some node)"
  shows "fst (appendNestedImpl arrayOffset idx type s) = Inl EBADMSG"
proof -
  from assms have "\<exists>y. fst (appendNestedWalk arrayOffset idx 10 s) = Inr (Some y)" by blast
  then show ?thesis
    unfolding appendNestedWalk_def appendNestedImpl_def
    apply (erule_tac bind_overflow)
    apply (erule bind_overflow)
    apply (rule findOrInsertKey_overflow)
    apply simp
    done
qed

lemma reaches_error:
  "reaches b call call' \<Longrightarrow> readCall b call' = Some (Inl e) \<Longrightarrow> readCall b call = Some (Inl e)"
proof (induction rule: reaches.induct)
  case (reaches_refl call)
  then show ?case .
next
  case (reaches_object valOffset call)
  then show ?case
    by (subst readCall.simps) (simp add: const_defs)
next
  case (reaches_array valOffset sz call)
  then show ?case
    by (subst readCall.simps) (simp add: const_defs)
next
  case (reaches_property it entry it' call result)
  then show ?case
    by (subst readCall.simps) simp
next
  case (reaches_next_property it entry it' v result call)
  then show ?case
    by (subst readCall.simps) simp
next
  case (reaches_absent i sz nodeOff result call)
  then show ?case
    by (subst readCall.simps) simp
next
  case (reaches_element i sz nodeOff node idx kvOffset call result)
  then show ?case
    by (subst readCall.simps) simp
next
  case (reaches_next_element i sz nodeOff node idx kvOffset v result call)
  then show ?case
    by (subst readCall.simps) simp
qed

lemma readArray_overflow:
  assumes "i < sz" and "descend b i nodeOff 10 = Inr (Some x)"
  shows "readCall b (ReadArray nodeOff i sz result) = Some (Inl EBADMSG)"
  using assms(1) findKey_overflow [OF assms(2)]
  by (subst readCall.simps) simp

text \<open>
  Claim C9, as amended. When the descent of a call takes a tenth step, the call fails
  with \<^verbatim>\<open>BAD_MESSAGE\<close>:
  \<^item> \<^verbatim>\<open>get\<close>, \<^verbatim>\<open>has\<close> and \<^verbatim>\<open>getAt\<close>, when it is their own walk from \<open>offset\<close>;
  \<^item> \<^verbatim>\<open>_readValue\<close>, \<^verbatim>\<open>_readObject\<close> and \<^verbatim>\<open>_readArray\<close>, and with them \<^verbatim>\<open>get\<close>, \<^verbatim>\<open>getAt\<close>
    and \<^verbatim>\<open>toJSON\<close>, when it is the walk of a \<^verbatim>\<open>_readArray\<close> that the read comes to;
  \<^item> the typed setters and appends (\<^verbatim>\<open>_setImpl\<close>, \<^verbatim>\<open>_setNestedImpl\<close>,
    \<^verbatim>\<open>_appendPrimitiveImpl\<close>, \<^verbatim>\<open>_appendNestedImpl\<close>), when it is their walk, which starts
    after the array has been enlarged where needed and the generation incremented, and
    which splits the full nodes on its way.

  A read is a function of the handle that returns a result only: it writes nothing.
  Of the buffer after a failed set or append nothing is claimed.
\<close>

theorem C9_descent_overflow:
  "(initialized s \<and> descend (buffer s) (kd_hash (getKeyData key)) offset 10 = Inr (Some node)
      \<longrightarrow> get s key offset = Some (Inl EBADMSG) \<and> has s key offset = Inl EBADMSG)
   \<and> (initialized s \<and> descend (buffer s) idx offset 10 = Inr (Some node)
      \<longrightarrow> getAt s idx offset = Some (Inl EBADMSG))
   \<and> (reaches b call (ReadArray nodeOff i sz result) \<and> i < sz
        \<and> descend b i nodeOff 10 = Inr (Some node)
      \<longrightarrow> readCall b call = Some (Inl EBADMSG))
   \<and> (initialized s \<and> findKey (buffer s) offset (kd_hash (getKeyData key)) = Inr (Some (n, j))
        \<and> getNodeKvOffset (buffer s) n j = Inr kvOffset
        \<and> reaches (buffer s) (ReadValue (skipKey (buffer s) kvOffset)) (ReadArray nodeOff i sz result)
        \<and> i < sz \<and> descend (buffer s) i nodeOff 10 = Inr (Some node)
      \<longrightarrow> get s key offset = Some (Inl EBADMSG))
   \<and> (initialized s \<and> findKey (buffer s) offset idx = Inr (Some (n, j))
        \<and> getNodeKvOffset (buffer s) n j = Inr kvOffset
        \<and> reaches (buffer s) (ReadValue kvOffset) (ReadArray nodeOff i sz result)
        \<and> i < sz \<and> descend (buffer s) i nodeOff 10 = Inr (Some node)
      \<longrightarrow> getAt s idx offset = Some (Inl EBADMSG))
   \<and> (initialized s \<and> getNodeType (buffer s) 0 = Inr T_OBJECT
        \<and> reaches (buffer s) (ReadObject (IterStart 0) []) (ReadArray nodeOff i sz result)
        \<and> i < sz \<and> descend (buffer s) i nodeOff 10 = Inr (Some node)
      \<longrightarrow> toJSON s = Some (Inl EBADMSG))
   \<and> (initialized s \<and> getNodeType (buffer s) 0 = Inr T_ARRAY
        \<and> getNodeSize (buffer s) 0 = Inr rootSize
        \<and> reaches (buffer s) (ReadArray 0 0 rootSize []) (ReadArray nodeOff i sz result)
        \<and> i < sz \<and> descend (buffer s) i nodeOff 10 = Inr (Some node)
      \<longrightarrow> toJSON s = Some (Inl EBADMSG))
   \<and> (fst (setWalk key offset dataSize 10 s) = Inr (Some node)
      \<longrightarrow> fst (setImpl key offset type dataSize writeData s) = Inl EBADMSG)
   \<and> (fst (setNestedWalk key offset 10 s) = Inr (Some node)
      \<longrightarrow> fst (setNestedImpl key offset type s) = Inl EBADMSG)
   \<and> (fst (appendWalk offset idx dataSize 10 s) = Inr (Some node)
      \<longrightarrow> fst (appendPrimitiveImpl offset idx type dataSize writeData s) = Inl EBADMSG)
   \<and> (fst (appendNestedWalk offset idx 10 s) = Inr (Some node)
      \<longrightarrow> fst (appendNestedImpl offset idx type s) = Inl EBADMSG)"
proof -
  have nested: "readCall c call' = Some (Inl EBADMSG)"
    if "reaches c call' (ReadArray nodeOff i sz result) \<and> i < sz
        \<and> descend c i nodeOff 10 = Inr (Some node)" for c call'
  proof -
    from that have r: "reaches c call' (ReadArray nodeOff i sz result)" and lt: "i < sz"
      and d: "descend c i nodeOff 10 = Inr (Some node)" by simp_all
    from r readArray_overflow [OF lt d] show ?thesis by (rule reaches_error)
  qed
  have k1: "initialized s \<and> descend (buffer s) (kd_hash (getKeyData key)) offset 10 = Inr (Some node)
      \<longrightarrow> get s key offset = Some (Inl EBADMSG) \<and> has s key offset = Inl EBADMSG"
  proof
    assume a: "initialized s \<and> descend (buffer s) (kd_hash (getKeyData key)) offset 10 = Inr (Some node)"
    then have "findKey (buffer s) offset (kd_hash (getKeyData key)) = Inl EBADMSG"
      using findKey_overflow by blast
    with a show "get s key offset = Some (Inl EBADMSG) \<and> has s key offset = Inl EBADMSG"
      by (simp add: get_def has_def mapR_def)
  qed
  have k2: "initialized s \<and> descend (buffer s) idx offset 10 = Inr (Some node)
      \<longrightarrow> getAt s idx offset = Some (Inl EBADMSG)"
  proof
    assume a: "initialized s \<and> descend (buffer s) idx offset 10 = Inr (Some node)"
    then have "findKey (buffer s) offset idx = Inl EBADMSG" using findKey_overflow by blast
    with a show "getAt s idx offset = Some (Inl EBADMSG)" by (simp add: getAt_def)
  qed
  have k3: "reaches b call (ReadArray nodeOff i sz result) \<and> i < sz
        \<and> descend b i nodeOff 10 = Inr (Some node)
      \<longrightarrow> readCall b call = Some (Inl EBADMSG)"
    using nested by blast
  have k4: "initialized s \<and> findKey (buffer s) offset (kd_hash (getKeyData key)) = Inr (Some (n, j))
        \<and> getNodeKvOffset (buffer s) n j = Inr kvOffset
        \<and> reaches (buffer s) (ReadValue (skipKey (buffer s) kvOffset)) (ReadArray nodeOff i sz result)
        \<and> i < sz \<and> descend (buffer s) i nodeOff 10 = Inr (Some node)
      \<longrightarrow> get s key offset = Some (Inl EBADMSG)"
  proof
    assume a: "initialized s \<and> findKey (buffer s) offset (kd_hash (getKeyData key)) = Inr (Some (n, j))
        \<and> getNodeKvOffset (buffer s) n j = Inr kvOffset
        \<and> reaches (buffer s) (ReadValue (skipKey (buffer s) kvOffset)) (ReadArray nodeOff i sz result)
        \<and> i < sz \<and> descend (buffer s) i nodeOff 10 = Inr (Some node)"
    then have "readCall (buffer s) (ReadValue (skipKey (buffer s) kvOffset)) = Some (Inl EBADMSG)"
      by (intro nested) simp
    with a show "get s key offset = Some (Inl EBADMSG)" by (simp add: get_def readValue_def)
  qed
  have k5: "initialized s \<and> findKey (buffer s) offset idx = Inr (Some (n, j))
        \<and> getNodeKvOffset (buffer s) n j = Inr kvOffset
        \<and> reaches (buffer s) (ReadValue kvOffset) (ReadArray nodeOff i sz result)
        \<and> i < sz \<and> descend (buffer s) i nodeOff 10 = Inr (Some node)
      \<longrightarrow> getAt s idx offset = Some (Inl EBADMSG)"
  proof
    assume a: "initialized s \<and> findKey (buffer s) offset idx = Inr (Some (n, j))
        \<and> getNodeKvOffset (buffer s) n j = Inr kvOffset
        \<and> reaches (buffer s) (ReadValue kvOffset) (ReadArray nodeOff i sz result)
        \<and> i < sz \<and> descend (buffer s) i nodeOff 10 = Inr (Some node)"
    then have "readCall (buffer s) (ReadValue kvOffset) = Some (Inl EBADMSG)"
      by (intro nested) simp
    with a show "getAt s idx offset = Some (Inl EBADMSG)" by (simp add: getAt_def readValue_def)
  qed
  have k6: "initialized s \<and> getNodeType (buffer s) 0 = Inr T_OBJECT
        \<and> reaches (buffer s) (ReadObject (IterStart 0) []) (ReadArray nodeOff i sz result)
        \<and> i < sz \<and> descend (buffer s) i nodeOff 10 = Inr (Some node)
      \<longrightarrow> toJSON s = Some (Inl EBADMSG)"
  proof
    assume a: "initialized s \<and> getNodeType (buffer s) 0 = Inr T_OBJECT
        \<and> reaches (buffer s) (ReadObject (IterStart 0) []) (ReadArray nodeOff i sz result)
        \<and> i < sz \<and> descend (buffer s) i nodeOff 10 = Inr (Some node)"
    then have "readCall (buffer s) (ReadObject (IterStart 0) []) = Some (Inl EBADMSG)"
      by (intro nested) simp
    with a show "toJSON s = Some (Inl EBADMSG)" by (simp add: toJSON_def readObject_def)
  qed
  have k7: "initialized s \<and> getNodeType (buffer s) 0 = Inr T_ARRAY
        \<and> getNodeSize (buffer s) 0 = Inr rootSize
        \<and> reaches (buffer s) (ReadArray 0 0 rootSize []) (ReadArray nodeOff i sz result)
        \<and> i < sz \<and> descend (buffer s) i nodeOff 10 = Inr (Some node)
      \<longrightarrow> toJSON s = Some (Inl EBADMSG)"
  proof
    assume a: "initialized s \<and> getNodeType (buffer s) 0 = Inr T_ARRAY
        \<and> getNodeSize (buffer s) 0 = Inr rootSize
        \<and> reaches (buffer s) (ReadArray 0 0 rootSize []) (ReadArray nodeOff i sz result)
        \<and> i < sz \<and> descend (buffer s) i nodeOff 10 = Inr (Some node)"
    then have "readCall (buffer s) (ReadArray 0 0 rootSize []) = Some (Inl EBADMSG)"
      by (intro nested) simp
    with a show "toJSON s = Some (Inl EBADMSG)"
      by (simp add: toJSON_def readArray_def T_ARRAY_def T_OBJECT_def)
  qed
  have k8: "fst (setWalk key offset dataSize 10 s) = Inr (Some node)
      \<longrightarrow> fst (setImpl key offset type dataSize writeData s) = Inl EBADMSG"
    using setImpl_overflow by blast
  have k9: "fst (setNestedWalk key offset 10 s) = Inr (Some node)
      \<longrightarrow> fst (setNestedImpl key offset type s) = Inl EBADMSG"
    using setNestedImpl_overflow by blast
  have k10: "fst (appendWalk offset idx dataSize 10 s) = Inr (Some node)
      \<longrightarrow> fst (appendPrimitiveImpl offset idx type dataSize writeData s) = Inl EBADMSG"
    using appendPrimitiveImpl_overflow by blast
  have k11: "fst (appendNestedWalk offset idx 10 s) = Inr (Some node)
      \<longrightarrow> fst (appendNestedImpl offset idx type s) = Inl EBADMSG"
    using appendNestedImpl_overflow by blast
  show ?thesis
    by (intro conjI k1 k2 k3 k4 k5 k6 k7 k8 k9 k10 k11)
qed

subsection \<open>Two corrupt buffers\<close>

text \<open>A buffer whose node at offset 96 is its own first child: zeros, except the type
  of the root and the first child offset of the root and of the node at 96, both 96.
  \<^verbatim>\<open>Lite3.fromBuffer\<close> accepts it.\<close>

definition corrupt_buffer :: bytes where
  "corrupt_buffer = (replicate 1024 0)[0 := 6, 64 := 96, 160 := 96]"

text \<open>A buffer with a sound root and a corrupt nested array. The root object at 0 has
  one entry with the hash of \<^verbatim>\<open>"a"\<close>, whose key is empty and ends at offset 96; the array
  at 192 has one entry with index 0, whose value is at 96. At 96 there is an array of
  size 1 without keys that is its own first child.\<close>

definition nested_corrupt_buffer :: bytes where
  "nested_corrupt_buffer =
     (replicate 1024 0)[0 := 6, 4 := 6, 5 := 182, 6 := 2, 32 := 1, 36 := 95,
                        96 := 7, 128 := 64, 160 := 96, 192 := 7, 224 := 1, 228 := 96]"

lemma descend_numeral:
  "descend b hash node (numeral k) =
     bindR (getNodeKeyCount b node) (\<lambda>keyCount.
     bindR (scanKeys b node hash keyCount 0) (\<lambda>i.
     bindR (keyAt b node hash keyCount i) (\<lambda>found.
     if found then Inr None
     else
       bindR (hasChildren b node) (\<lambda>hc.
       if hc then bindR (getNodeChildOffset b node i) (\<lambda>child. descend b hash child (pred_numeral k))
       else Inr None))))"
  by (simp only: numeral_eq_Suc[of k] descend.simps)

lemma descend_1:
  "descend b hash node (Suc 0) =
     bindR (getNodeKeyCount b node) (\<lambda>keyCount.
     bindR (scanKeys b node hash keyCount 0) (\<lambda>i.
     bindR (keyAt b node hash keyCount i) (\<lambda>found.
     if found then Inr None
     else
       bindR (hasChildren b node) (\<lambda>hc.
       if hc then bindR (getNodeChildOffset b node i) (\<lambda>child. Inr (Some child))
       else Inr None))))"
  by (simp cong: if_cong)

lemma insertDescend_numeral:
  "insertDescend rootOffset hash node parent parentIndex (numeral k) =
     bind (readB (\<lambda>b. getNodeKeyCount b node)) (\<lambda>kc.
     bind (if kc = KEY_COUNT_MAX
           then bind (splitNode rootOffset node parent parentIndex) (\<lambda>_.
                  case parent of
                    None \<Rightarrow> ret rootOffset
                  | Some p \<Rightarrow>
                      bind (readB (\<lambda>b. getNodeHash b p parentIndex)) (\<lambda>separatorHash.
                      if hash > separatorHash
                      then readB (\<lambda>b. getNodeChildOffset b p (parentIndex + 1))
                      else ret node))
           else ret node) (\<lambda>node.
     bind (readB (\<lambda>b. getNodeKeyCount b node)) (\<lambda>keyCount.
     bind (readB (\<lambda>b. scanKeys b node hash keyCount 0)) (\<lambda>i.
     bind (readB (\<lambda>b. keyAt b node hash keyCount i)) (\<lambda>found.
     if found then ret None
     else
       bind (readB (\<lambda>b. hasChildren b node)) (\<lambda>hc.
       if hc
       then bind (readB (\<lambda>b. getNodeChildOffset b node i)) (\<lambda>child.
              insertDescend rootOffset hash child (Some node) i (pred_numeral k))
       else ret None))))))"
  by (simp only: numeral_eq_Suc[of k] insertDescend.simps)

lemma insertDescend_1:
  "insertDescend rootOffset hash node parent parentIndex (Suc 0) =
     bind (readB (\<lambda>b. getNodeKeyCount b node)) (\<lambda>kc.
     bind (if kc = KEY_COUNT_MAX
           then bind (splitNode rootOffset node parent parentIndex) (\<lambda>_.
                  case parent of
                    None \<Rightarrow> ret rootOffset
                  | Some p \<Rightarrow>
                      bind (readB (\<lambda>b. getNodeHash b p parentIndex)) (\<lambda>separatorHash.
                      if hash > separatorHash
                      then readB (\<lambda>b. getNodeChildOffset b p (parentIndex + 1))
                      else ret node))
           else ret node) (\<lambda>node.
     bind (readB (\<lambda>b. getNodeKeyCount b node)) (\<lambda>keyCount.
     bind (readB (\<lambda>b. scanKeys b node hash keyCount 0)) (\<lambda>i.
     bind (readB (\<lambda>b. keyAt b node hash keyCount i)) (\<lambda>found.
     if found then ret None
     else
       bind (readB (\<lambda>b. hasChildren b node)) (\<lambda>hc.
       if hc
       then bind (readB (\<lambda>b. getNodeChildOffset b node i)) (\<lambda>child.
              ret (Some child))
       else ret None))))))"
  by (simp only: insertDescend.simps)

lemmas walk_defs = descend_numeral descend_1 insertDescend_numeral insertDescend_1
  setWalk_def setNestedWalk_def appendWalk_def appendNestedWalk_def fromBuffer_def

lemma corrupt_descend:
  "descend (buffer (fromBuffer corrupt_buffer 192)) (kd_hash (getKeyData [97])) 0 10 = Inr (Some 96)"
  unfolding corrupt_buffer_def
  by (simp add: eval_defs eval_iter walk_defs cong: eval_congs)

lemma corrupt_descend_index:
  "descend (buffer (fromBuffer corrupt_buffer 192)) 3 0 10 = Inr (Some 96)"
  unfolding corrupt_buffer_def
  by (simp add: eval_defs eval_iter walk_defs cong: eval_congs)

lemma corrupt_setWalk:
  "fst (setWalk [97] 0 0 10 (fromBuffer corrupt_buffer 192)) = Inr (Some 96)"
  unfolding corrupt_buffer_def
  by (simp add: eval_defs eval_iter walk_defs cong: eval_congs)

lemma corrupt_setNestedWalk:
  "fst (setNestedWalk [97] 0 10 (fromBuffer corrupt_buffer 192)) = Inr (Some 96)"
  unfolding corrupt_buffer_def
  by (simp add: eval_defs eval_iter walk_defs cong: eval_congs)

lemma corrupt_appendWalk:
  "fst (appendWalk 0 3 0 10 (fromBuffer corrupt_buffer 192)) = Inr (Some 96)"
  unfolding corrupt_buffer_def
  by (simp add: eval_defs eval_iter walk_defs cong: eval_congs)

lemma corrupt_appendNestedWalk:
  "fst (appendNestedWalk 0 3 10 (fromBuffer corrupt_buffer 192)) = Inr (Some 96)"
  unfolding corrupt_buffer_def
  by (simp add: eval_defs eval_iter walk_defs cong: eval_congs)

lemma nested_facts:
  "findKey nested_corrupt_buffer 0 (kd_hash (getKeyData [97])) = Inr (Some (0, 0))
   \<and> getNodeKvOffset nested_corrupt_buffer 0 0 = Inr 95
   \<and> skipKey nested_corrupt_buffer 95 = 96
   \<and> findKey nested_corrupt_buffer 192 0 = Inr (Some (192, 0))
   \<and> getNodeKvOffset nested_corrupt_buffer 192 0 = Inr 96
   \<and> byteOpt nested_corrupt_buffer 96 = Some T_ARRAY
   \<and> getNodeSize nested_corrupt_buffer 96 = Inr 1
   \<and> descend nested_corrupt_buffer 0 96 10 = Inr (Some 96)
   \<and> getNodeType nested_corrupt_buffer 0 = Inr T_OBJECT
   \<and> iterNext nested_corrupt_buffer (IterStart 0)
       = Some (Inr (Some \<lparr>e_key = Some [], e_valueOffset = 96\<rparr>, IterSuspended True [(0, 0)]))"
  unfolding nested_corrupt_buffer_def
  by (simp add: eval_defs eval_iter walk_defs cong: eval_congs)

lemma nested_reaches:
  "reaches nested_corrupt_buffer (ReadValue 96) (ReadArray 96 0 1 [])"
  using nested_facts by (intro reaches_array [where sz = 1] reaches_refl) simp_all

lemma nested_reaches_root:
  "reaches nested_corrupt_buffer (ReadObject (IterStart 0) []) (ReadArray 96 0 1 [])"
proof (rule reaches_property)
  show "iterNext nested_corrupt_buffer (IterStart 0)
       = Some (Inr (Some \<lparr>e_key = Some [], e_valueOffset = 96\<rparr>, IterSuspended True [(0, 0)]))"
    using nested_facts by simp
  show "reaches nested_corrupt_buffer (ReadValue (e_valueOffset \<lparr>e_key = Some [], e_valueOffset = 96\<rparr>))
          (ReadArray 96 0 1 [])"
    using nested_reaches by simp
qed

theorem C9_descent_overflow_witness:
  "initialized (fromBuffer corrupt_buffer 192)
   \<and> descend (buffer (fromBuffer corrupt_buffer 192)) (kd_hash (getKeyData [97])) 0 10 = Inr (Some 96)
   \<and> descend (buffer (fromBuffer corrupt_buffer 192)) 3 0 10 = Inr (Some 96)
   \<and> fst (setWalk [97] 0 0 10 (fromBuffer corrupt_buffer 192)) = Inr (Some 96)
   \<and> fst (setNestedWalk [97] 0 10 (fromBuffer corrupt_buffer 192)) = Inr (Some 96)
   \<and> fst (appendWalk 0 3 0 10 (fromBuffer corrupt_buffer 192)) = Inr (Some 96)
   \<and> fst (appendNestedWalk 0 3 10 (fromBuffer corrupt_buffer 192)) = Inr (Some 96)
   \<and> get (fromBuffer corrupt_buffer 192) [97] 0 = Some (Inl EBADMSG)
   \<and> has (fromBuffer corrupt_buffer 192) [97] 0 = Inl EBADMSG
   \<and> getAt (fromBuffer corrupt_buffer 192) 3 0 = Some (Inl EBADMSG)
   \<and> fst (setImpl [97] 0 T_NULL 0 (\<lambda>valOffset. ret ()) (fromBuffer corrupt_buffer 192)) = Inl EBADMSG
   \<and> fst (setNestedImpl [97] 0 T_OBJECT (fromBuffer corrupt_buffer 192)) = Inl EBADMSG
   \<and> fst (appendPrimitiveImpl 0 3 T_NULL 0 (\<lambda>valOffset. ret ()) (fromBuffer corrupt_buffer 192))
       = Inl EBADMSG
   \<and> fst (appendNestedImpl 0 3 T_ARRAY (fromBuffer corrupt_buffer 192)) = Inl EBADMSG
   \<and> initialized (fromBuffer nested_corrupt_buffer 288)
   \<and> findKey nested_corrupt_buffer 0 (kd_hash (getKeyData [97])) = Inr (Some (0, 0))
   \<and> getNodeKvOffset nested_corrupt_buffer 0 0 = Inr 95
   \<and> findKey nested_corrupt_buffer 192 0 = Inr (Some (192, 0))
   \<and> getNodeKvOffset nested_corrupt_buffer 192 0 = Inr 96
   \<and> getNodeType nested_corrupt_buffer 0 = Inr T_OBJECT
   \<and> reaches nested_corrupt_buffer (ReadValue (skipKey nested_corrupt_buffer 95)) (ReadArray 96 0 1 [])
   \<and> reaches nested_corrupt_buffer (ReadValue 96) (ReadArray 96 0 1 [])
   \<and> reaches nested_corrupt_buffer (ReadObject (IterStart 0) []) (ReadArray 96 0 1 [])
   \<and> descend nested_corrupt_buffer 0 96 10 = Inr (Some 96)
   \<and> readCall nested_corrupt_buffer (ReadValue 96) = Some (Inl EBADMSG)
   \<and> get (fromBuffer nested_corrupt_buffer 288) [97] 0 = Some (Inl EBADMSG)
   \<and> getAt (fromBuffer nested_corrupt_buffer 288) 0 192 = Some (Inl EBADMSG)
   \<and> toJSON (fromBuffer nested_corrupt_buffer 288) = Some (Inl EBADMSG)"
proof -
  let ?c = "fromBuffer corrupt_buffer 192"
  let ?n = "fromBuffer nested_corrupt_buffer 288"
  have i: "initialized ?c" "initialized ?n" "buffer ?n = nested_corrupt_buffer"
    by (simp_all add: fromBuffer_def)
  have sk: "skipKey nested_corrupt_buffer 95 = 96" using nested_facts by simp
  show ?thesis
    using
      C9_descent_overflow [of ?c "[97]" 0 96 3 nested_corrupt_buffer "ReadValue 96" 96 0 1 "[]"
        0 0 0 0 0 T_NULL "\<lambda>valOffset. ret ()"]
      C9_descent_overflow [of ?c "[97]" 0 96 3 nested_corrupt_buffer "ReadValue 96" 96 0 1 "[]"
        0 0 0 0 0 T_OBJECT "\<lambda>valOffset. ret ()"]
      C9_descent_overflow [of ?c "[97]" 0 96 3 nested_corrupt_buffer "ReadValue 96" 96 0 1 "[]"
        0 0 0 0 0 T_ARRAY "\<lambda>valOffset. ret ()"]
      C9_descent_overflow [of ?n "[97]" 0 96 0 nested_corrupt_buffer "ReadValue 96" 96 0 1 "[]"
        0 0 95 0 0 T_NULL "\<lambda>valOffset. ret ()"]
      C9_descent_overflow [of ?n "[97]" 192 96 0 nested_corrupt_buffer "ReadValue 96" 96 0 1 "[]"
        192 0 96 0 0 T_NULL "\<lambda>valOffset. ret ()"]
      i sk nested_facts nested_reaches nested_reaches_root
      corrupt_descend corrupt_descend_index corrupt_setWalk corrupt_setNestedWalk
      corrupt_appendWalk corrupt_appendNestedWalk
    by simp
qed

text \<open>
  Claim C9 as stated fails for a set: \<^verbatim>\<open>setNull("a")\<close> on the handle made from
  \<open>corrupt_buffer\<close> fails with \<^verbatim>\<open>EBADMSG\<close>, and byte 1 of the buffer, the low byte of the
  generation, has changed from 0 to 1: \<^verbatim>\<open>_setImpl\<close> increments the generation before the
  walk.
\<close>

theorem C9_counterexample:
  "fst (setNull [97] 0 (fromBuffer corrupt_buffer 192)) = Inl EBADMSG
   \<and> byteAt corrupt_buffer 1 = 0
   \<and> byteAt (buffer (snd (setNull [97] 0 (fromBuffer corrupt_buffer 192)))) 1 = 1"
  unfolding corrupt_buffer_def
  by (simp add: eval_defs eval_iter fromBuffer_def cong: eval_congs)



section \<open>C5: the generator and the generation counter\<close>

text \<open>\<^verbatim>\<open>initObject(); setNull("a"); setNull("b"); it = _iterate(0); it.next(); setNull("c");
  it.next()\<close>: the generation of the root and what the generator yields, at the first
  \<^verbatim>\<open>next()\<close> and at the second, which follows the mutation.\<close>

definition iterate_mutate_run ::
  "((error + nat) \<times> (error + iter_entry option) option
    \<times> (error + nat) \<times> (error + iter_entry option) option) m" where
  "iterate_mutate_run =
     bind initObject (\<lambda>_.
     bind (setNull [97] 0) (\<lambda>_.
     bind (setNull [98] 0) (\<lambda>_.
     bind (gets (\<lambda>s. (getNodeGeneration (buffer s) 0, iterNext (buffer s) (IterStart 0)))) (\<lambda>first.
     bind (setNull [99] 0) (\<lambda>_.
     bind (gets (\<lambda>s. (getNodeGeneration (buffer s) 0,
                 case snd first of
                   Some (Inr (entry, it)) \<Rightarrow> iterNext (buffer s) it
                 | Some (Inl e) \<Rightarrow> Some (Inl e)
                 | None \<Rightarrow> None))) (\<lambda>second.
     ret (fst first, map_option (mapR fst) (snd first),
          fst second, map_option (mapR fst) (snd second))))))))"

text \<open>
  Claim C5 as stated fails: the generator holds no generation and compares none. In
  the run the generation is 2 at the first step and 3 at the second, and the second
  step yields the entry of \<^verbatim>\<open>"b"\<close>.
\<close>

theorem C5_counterexample:
  "fst (iterate_mutate_run (Lite3 1024)) =
     Inr (Inr 2, Some (Inr (Some \<lparr>e_key = Some [97], e_valueOffset = 99\<rparr>)),
          Inr 3, Some (Inr (Some \<lparr>e_key = Some [98], e_valueOffset = 103\<rparr>)))"
  unfolding iterate_mutate_run_def
  by (simp add: eval_defs eval_iter cong: eval_congs)

subsection \<open>A step of the generator does not depend on the generation\<close>

text \<open>Two arrays that differ in the bytes 1, 2 and 3 at most, the generation of the node
  at offset 0.\<close>

definition agree :: "bytes \<Rightarrow> bytes \<Rightarrow> bool" where
  "agree b b' \<longleftrightarrow> length b' = length b \<and> (\<forall>i. i = 0 \<or> 4 \<le> i \<longrightarrow> b' ! i = b ! i)"

lemma agree_sym: "agree b b' \<Longrightarrow> agree b' b"
  by (simp add: agree_def)

lemma agree_byteAt: "agree b b' \<Longrightarrow> i = 0 \<or> 4 \<le> i \<Longrightarrow> byteAt b' i = byteAt b i"
  by (auto simp: agree_def byteAt_def)

lemma agree_r32: "agree b b' \<Longrightarrow> 4 \<le> off \<Longrightarrow> r32 b' off = r32 b off"
  by (simp add: r32_def agree_byteAt)

lemma agree_readUint32: "agree b b' \<Longrightarrow> 4 \<le> off \<Longrightarrow> readUint32 b' off = readUint32 b off"
  by (simp add: readUint32_r32 agree_r32) (simp add: agree_def)

lemma agree_node_reads:
  assumes "agree b b'"
  shows "getNodeKeyCount b' n = getNodeKeyCount b n"
    and "getNodeHash b' n i = getNodeHash b n i"
    and "getNodeKvOffset b' n i = getNodeKvOffset b n i"
    and "getNodeChildOffset b' n i = getNodeChildOffset b n i"
    and "hasChildren b' n = hasChildren b n"
  using assms
  by (simp_all add: getNodeKeyCount_def getNodeHash_def getNodeKvOffset_def
        getNodeChildOffset_def hasChildren_def agree_readUint32 SIZE_KC_OFFSET_def)

lemma byteAt_lt: "byteAt b i < 256"
proof -
  have "unat (b ! i) < 2 ^ LENGTH(8)" by (rule unsigned_less)
  then show ?thesis by (simp add: byteAt_def)
qed

lemma r32_mod_256: "r32 b off mod 256 = byteAt b off"
proof -
  define k where "k = byteAt b (off + 1) + 256 * byteAt b (off + 2) + 65536 * byteAt b (off + 3)"
  have "r32 b off = byteAt b off + 256 * k"
    by (simp add: r32_def k_def)
  then have "r32 b off mod 256 = byteAt b off mod 256"
    by (simp only: mod_mult_self2)
  then show ?thesis using byteAt_lt [of b off] by simp
qed

lemma agree_getNodeType:
  assumes "agree b b'" and "r = 0 \<or> 4 \<le> r"
  shows "getNodeType b' r = getNodeType b r"
proof -
  have len: "length b' = length b" using assms(1) by (simp add: agree_def)
  have "r32 b' r mod 256 = r32 b r mod 256"
    using assms by (simp add: r32_mod_256 agree_byteAt)
  then show ?thesis by (simp add: getNodeType_def readUint32_r32 mapR_def len)
qed

lemma agree_leValue: "agree b b' \<Longrightarrow> 4 \<le> off \<Longrightarrow> leValue b' off n = leValue b off n"
  by (induction n arbitrary: off) (simp_all add: agree_byteAt)

lemma agree_drop:
  assumes "agree b b'" and "4 \<le> k"
  shows "drop k b' = drop k b"
proof (rule nth_equalityI)
  show "length (drop k b') = length (drop k b)" using assms(1) by (simp add: agree_def)
next
  fix i assume "i < length (drop k b')"
  then have "k + i < length b'" by simp
  moreover have "b' ! (k + i) = b ! (k + i)" using assms by (simp add: agree_def)
  ultimately show "drop k b' ! i = drop k b ! i" using assms(1) by (simp add: agree_def)
qed

lemma agree_skipKey: "agree b b' \<Longrightarrow> 4 \<le> kv \<Longrightarrow> skipKey b' kv = skipKey b kv"
  by (simp add: skipKey_def readVarUint_def agree_byteAt agree_leValue)

lemma agree_readKey: "agree b b' \<Longrightarrow> 4 \<le> kv \<Longrightarrow> readKey b' kv = readKey b kv"
  by (simp add: readKey_def decodeString_def readVarUint_def agree_byteAt agree_leValue agree_drop)

lemma agree_iterYield: "agree b b' \<Longrightarrow> 4 \<le> kv \<Longrightarrow> iterYield b' io kv = iterYield b io kv"
  by (simp add: iterYield_def agree_skipKey agree_readKey)

lemma agree_iterLoop: "agree b b' \<Longrightarrow> iterLoop b' st = iterLoop b st"
proof (induction st)
  case Nil
  then show ?case by simp
next
  case (Cons f rest)
  obtain node i where f: "f = (node, i)" by (cases f)
  have IH: "iterLoop b' rest = iterLoop b rest" using Cons by simp
  note ag = agree_node_reads [OF Cons.prems]
  show ?case
    unfolding f iterLoop.simps ag IH by (rule refl)
qed

lemma leftmost_agree_step:
  assumes IH: "\<And>b st y. lm b st = Some y \<Longrightarrow> (\<forall>b'. agree b b' \<longrightarrow> leftmost b' st = Some y)"
    and hyp0: "(case st of
        [] \<Rightarrow> Some (Inr [])
      | (node, i) # rest \<Rightarrow>
          (case hasChildren b node of
             Inl e \<Rightarrow> Some (Inl e)
           | Inr hc \<Rightarrow>
               if hc
               then (case getNodeChildOffset b node 0 of
                       Inl e \<Rightarrow> Some (Inl e)
                     | Inr childOffset \<Rightarrow> lm b ((childOffset, 0) # st))
               else Some (Inr st))) = Some y"
    and a: "agree b b'"
  shows "leftmost b' st = Some y"
proof (cases st)
  case Nil
  with hyp0 have "y = Inr []" by simp
  then show ?thesis unfolding Nil by (subst leftmost.simps) simp
next
  case (Cons f rest)
  note ag = agree_node_reads [OF a]
  obtain node i where f: "f = (node, i)" by (cases f)
  have unfold: "leftmost b' st =
      (case hasChildren b node of
         Inl e \<Rightarrow> Some (Inl e)
       | Inr hc \<Rightarrow>
           if hc
           then (case getNodeChildOffset b node 0 of
                   Inl e \<Rightarrow> Some (Inl e)
                 | Inr c \<Rightarrow> leftmost b' ((c, 0) # st))
           else Some (Inr st))"
    by (subst leftmost.simps) (simp add: Cons f ag cong: sum.case_cong if_cong)
  have hyp: "(case hasChildren b node of
         Inl e \<Rightarrow> Some (Inl e)
       | Inr hc \<Rightarrow>
           if hc
           then (case getNodeChildOffset b node 0 of
                   Inl e \<Rightarrow> Some (Inl e)
                 | Inr c \<Rightarrow> lm b ((c, 0) # st))
           else Some (Inr st)) = Some y"
    using hyp0 by (simp add: Cons f)
  show ?thesis
  proof (cases "hasChildren b node")
    case (Inl e)
    with unfold hyp show ?thesis by simp
  next
    case (Inr hc)
    note h = Inr
    show ?thesis
    proof (cases hc)
      case False
      with h unfold hyp show ?thesis by simp
    next
      case True
      show ?thesis
      proof (cases "getNodeChildOffset b node 0")
        case (Inl e)
        with h True unfold hyp show ?thesis by simp
      next
        case (Inr c)
        with h True hyp have "lm b ((c, 0) # st) = Some y" by simp
        then have "leftmost b' ((c, 0) # st) = Some y" using IH a by blast
        with h Inr True unfold show ?thesis by simp
      qed
    qed
  qed
qed

lemma leftmost_agree_Some:
  assumes "leftmost b st = Some y"
  shows "\<forall>b'. agree b b' \<longrightarrow> leftmost b' st = Some y"
proof (rule leftmost.raw_induct [where P = "\<lambda>b st y. \<forall>b'. agree b b' \<longrightarrow> leftmost b' st = Some y",
         OF _ assms])
  fix lm b st y
  assume IH: "\<And>b st y. lm b st = Some y \<Longrightarrow> (\<forall>b'. agree b b' \<longrightarrow> leftmost b' st = Some y)"
    and hyp0: "(case st of
        [] \<Rightarrow> Some (Inr [])
      | (node, i) # rest \<Rightarrow>
          (case hasChildren b node of
             Inl e \<Rightarrow> Some (Inl e)
           | Inr hc \<Rightarrow>
               if hc
               then (case getNodeChildOffset b node 0 of
                       Inl e \<Rightarrow> Some (Inl e)
                     | Inr childOffset \<Rightarrow> lm b ((childOffset, 0) # st))
               else Some (Inr st))) = Some y"
  show "\<forall>b'. agree b b' \<longrightarrow> leftmost b' st = Some y"
    using leftmost_agree_step [where lm = lm and st = st and b = b and y = y, OF IH hyp0] by blast
qed

lemma agree_leftmost: "agree b b' \<Longrightarrow> leftmost b' st = leftmost b st"
proof (cases "leftmost b st")
  case None
  assume a: "agree b b'"
  show ?thesis
  proof (cases "leftmost b' st")
    case None with \<open>leftmost b st = None\<close> show ?thesis by simp
  next
    case (Some y)
    from leftmost_agree_Some [OF Some] agree_sym [OF a] \<open>leftmost b st = None\<close>
    show ?thesis by simp
  qed
next
  case (Some y)
  assume "agree b b'"
  from leftmost_agree_Some [OF Some] this Some show ?thesis by simp
qed

lemma agree_iterAdvance: "agree b b' \<Longrightarrow> iterAdvance b' st = iterAdvance b st"
  by (simp add: iterAdvance_def agree_node_reads agree_leftmost
        cong: list.case_cong sum.case_cong if_cong)

lemma agree_iterRun: "agree b b' \<Longrightarrow> iterRun b' io st = iterRun b io st"
  by (simp add: iterRun_def agree_iterLoop)

lemma agree_iterLocate:
  assumes "agree b b'" and "\<forall>r. it = IterStart r \<longrightarrow> r = 0 \<or> 4 \<le> r"
  shows "iterLocate b' it = iterLocate b it"
proof (cases it)
  case (IterStart r)
  with assms(2) have "r = 0 \<or> 4 \<le> r" by simp
  then show ?thesis
    using assms(1) IterStart
    by (simp add: iterLocate_def agree_getNodeType agree_leftmost agree_iterRun
          cong: sum.case_cong option.case_cong)
next
  case (IterSuspended io st)
  then show ?thesis
    using assms(1)
    by (simp add: iterLocate_def agree_iterAdvance agree_iterRun
          cong: sum.case_cong option.case_cong)
next
  case IterDone
  then show ?thesis by (simp add: iterLocate_def)
qed

lemma setNodeGeneration_agree:
  assumes "setNodeGeneration b 0 g = Inr b'"
  shows "agree b b'"
proof -
  from assms have len: "4 \<le> length b"
    and b': "b' = w32 b 0 (g * 256 + r32 b 0 mod 256)"
    by (auto simp: setNodeGeneration_def readUint32_r32 writeUint32_w32 bindR_def split: if_splits)
  have "(g * 256 + r32 b 0 mod 256) mod 2 ^ 32 mod 256 = byteAt b 0"
  proof -
    have "(g * 256 + r32 b 0 mod 256) mod 2 ^ 32 mod 256 = (g * 256 + r32 b 0 mod 256) mod 256"
      by (simp add: mod_mod_cancel)
    also have "\<dots> = byteAt b 0" by (simp add: r32_mod_256 byteAt_lt)
    finally show ?thesis .
  qed
  then have "w32 b 0 (g * 256 + r32 b 0 mod 256) ! 0 = b ! 0"
    using len by (simp add: w32_def byteOf_def byteAt_def)
  then show ?thesis using len by (auto simp: agree_def b' nth_w32_other)
qed

text \<open>
  Claim C5, as amended. A step of the generator reads the current buffer and nothing
  of the generation of the root: on two buffers that differ in that generation only it
  returns the same entry and leaves the same generator. The offsets the step reads at
  are taken not to lie inside the generation field: the offset the generator was made
  for, and the offset of the entry it comes to.
\<close>

theorem C5_step_ignores_generation:
  assumes "setNodeGeneration b 0 g = Inr b'"
    and "\<forall>r. it = IterStart r \<longrightarrow> r = 0 \<or> 4 \<le> r"
    and "\<forall>isObject kvOffset it'.
           iterLocate b it = Some (Inr (Some (isObject, kvOffset), it')) \<longrightarrow> 4 \<le> kvOffset"
  shows "iterNext b' it = iterNext b it"
proof -
  have ag: "agree b b'" using assms(1) by (rule setNodeGeneration_agree)
  have loc: "iterLocate b' it = iterLocate b it" using ag assms(2) by (rule agree_iterLocate)
  show ?thesis
  proof (cases "iterLocate b it")
    case None
    then show ?thesis by (simp add: iterNext_def loc)
  next
    case (Some r)
    show ?thesis
    proof (cases r)
      case (Inl e)
      then show ?thesis using Some by (simp add: iterNext_def loc mapR_def)
    next
      case (Inr p)
      obtain found it' where p: "p = (found, it')" by (cases p)
      show ?thesis
      proof (cases found)
        case None
        then show ?thesis using Some Inr p by (simp add: iterNext_def loc mapR_def)
      next
        case (Some q)
        obtain io kv where q: "q = (io, kv)" by (cases q)
        have "4 \<le> kv" using assms(3) \<open>iterLocate b it = Some r\<close> Inr p Some q by simp
        then have "iterYield b' io kv = iterYield b io kv" using ag by (simp add: agree_iterYield)
        then show ?thesis
          using \<open>iterLocate b it = Some r\<close> Inr p Some q by (simp add: iterNext_def loc mapR_def)
      qed
    qed
  qed
qed

text \<open>An object with one entry: the key \<^verbatim>\<open>"a"\<close> at offset 96 and the value \<^verbatim>\<open>null\<close> at
  offset 99.\<close>

definition one_entry_buffer :: bytes where
  "one_entry_buffer = (replicate 128 0)[0 := 6, 32 := 1, 36 := 96, 96 := 8, 97 := 97]"

lemma one_entry_facts:
  "setNodeGeneration one_entry_buffer 0 5 = Inr (one_entry_buffer[1 := 5])
   \<and> iterLocate one_entry_buffer (IterStart 0)
       = Some (Inr (Some (True, 96), IterSuspended True [(0, 0)]))
   \<and> iterNext one_entry_buffer (IterStart 0)
       = Some (Inr (Some \<lparr>e_key = Some [97], e_valueOffset = 99\<rparr>, IterSuspended True [(0, 0)]))"
  unfolding one_entry_buffer_def
  by (simp add: eval_defs eval_iter cong: eval_congs)

theorem C5_step_ignores_generation_witness:
  "setNodeGeneration one_entry_buffer 0 5 = Inr (one_entry_buffer[1 := 5])
   \<and> iterNext one_entry_buffer (IterStart 0)
       = Some (Inr (Some \<lparr>e_key = Some [97], e_valueOffset = 99\<rparr>, IterSuspended True [(0, 0)]))
   \<and> iterNext (one_entry_buffer[1 := 5]) (IterStart 0) = iterNext one_entry_buffer (IterStart 0)"
  using C5_step_ignores_generation [of one_entry_buffer 5 "one_entry_buffer[1 := 5]" "IterStart 0"]
    one_entry_facts
  by simp


end
